theory Spec2Isabelle
  imports
    Complex_Main
    "HOL-Library.AList"
    "HOL-Library.FSet"
    "HOL-Library.Char_ord"
    "HOL-Library.List_Lexorder"
    "HOL-Library.Product_Lexorder"
begin

section \<open>PyPML: the parking monitor (pypml.py)\<close>

text \<open>
  A shallow embedding of class \<open>ParkingMonitor\<close>. A Python \<open>dict\<close> is an
  association list in insertion order (\<open>map_of\<close> looks a key up, \<open>AList.update\<close>
  assigns to a key: an existing key keeps its position, a new key is appended, as in
  Python). A Python \<open>set\<close> of identifiers is a finite set (\<open>fset\<close>), \<open>len\<close> of it
  is \<open>fcard\<close>. Python integers are \<open>int\<close>. Simulation times, travel times and
  positions are Python floats that the code only stores and compares; they are numbers of
  type \<open>real\<close> here. \<open>copy.deepcopy\<close> is the identity on values; the sets of the
  subscriptions, which can be shared between classes and are changed in place, are objects
  in a store.
\<close>

subsection \<open>Errors\<close>

text \<open>
  The source raises the builtin \<open>Exception\<close> with a message, and Python itself raises
  \<open>KeyError\<close> and \<open>IndexError\<close>. The constructors name the messages:
  \<^item> \<open>NotFound\<close>: \<open>'Parking {} does not exist.'\<close>
  \<^item> \<open>NotConfigured\<close>: \<open>'vClass "{}" not initialized in parking {}.'\<close>, and the exception for
    subscriptions that are set before \<open>capacity_by_class\<close>
  \<^item> \<open>NotInitialized\<close>: \<open>'Estimated travel time structure for parkings is not initialized.'\<close>
  \<^item> \<open>InvariantViolation\<close>: the exceptions of the three \<open>_validate_parking_*\<close> methods
  \<^item> \<open>InconsistentState\<close>: \<open>'[{}] Vehicle {} cannot be removed from area {}.'\<close>
\<close>

datatype error =
    NotFound
  | NotConfigured
  | NotInitialized
  | InvariantViolation
  | InconsistentState
  | KeyError
  | IndexError

subsection \<open>Data model\<close>

text \<open>The attributes of a \<open>parkingArea\<close> element that the code reads (\<open>parking['sumo']\<close>);
  \<open>endPos\<close> is the value of \<open>float(parking['sumo']['endPos'])\<close>.\<close>

record sumo_attrib =
  sumo_id :: string
  lane :: string
  endPos :: real

text \<open>A value stored by a generic rule under a key of its own choice
  (\<open>parking[key] = copy.deepcopy(value)\<close>).\<close>

datatype conf_value =
    ConfInt int
  | ConfStr string
  | ConfList "conf_value list"
  | ConfDict "(string \<times> conf_value) list"

text \<open>
  One entry of \<open>_parking_db\<close>. The fields are the keys that \<open>__init__\<close> creates;
  \<open>other_keys\<close> holds every other key of the dictionary (only the last branch of the
  generic configuration can create one).

  The sets of \<open>subscriptions_by_class\<close> are objects that the code changes in place
  (\<open>vehicles.add\<close>, \<open>vehicles.remove\<close>), and \<open>copy.deepcopy\<close> keeps a set that
  several classes of a dictionary share as one object. So the entry of a class holds the
  number of reserved places and the address of its set object, and \<open>subscription_sets\<close>
  is the store of the set objects of the facility: two classes with the same address share
  their set. Every deep copy is made for one facility (in \<open>__init__\<close> and in
  \<open>set_parking_subscriptions\<close>), so no set object belongs to two facilities. The sets of
  \<open>occupancy_by_class\<close> and \<open>projections_by_class\<close> are created one by one in
  \<open>__init__\<close> and are values.
\<close>

record parking =
  sumo :: sumo_attrib
  total_capacity :: int
  total_occupancy :: int
  occupancy_series :: "(int \<times> real) list"
  occupancy_by_class :: "(string \<times> string fset) list"
  projections_by_class :: "(string \<times> string fset) list"
  capacity_by_class :: "(string \<times> int) list"
  subscriptions_by_class :: "(string \<times> (int \<times> nat)) list"
  subscription_sets :: "nat \<Rightarrow> string fset"
  uncertainty :: "real \<times> real"
  other_keys :: "(string \<times> conf_value) list"

text \<open>
  What \<open>subscriptions_by_class.items()\<close> yields: for each class the number of reserved
  places and the set of vehicles that its set object holds.
\<close>

definition subscription_items :: "parking \<Rightarrow> (string \<times> (int \<times> string fset)) list" where
  "subscription_items p =
     map (\<lambda>(key, (num, ref)). (key, (num, subscription_sets p ref)))
       (subscriptions_by_class p)"

text \<open>
  A dictionary of subscriptions as an argument or a result of a method: the dictionary
  with the addresses, and its set objects.
\<close>

type_synonym subscriptions = "(string \<times> (int \<times> nat)) list \<times> (nat \<Rightarrow> string fset)"

text \<open>One entry of \<open>_routers_db\<close>: the intervals are pairs of the end time and the
  list of (parking id, visible).\<close>

record rerouter =
  rerouter_id :: string
  edges :: "string list"
  intervals :: "(int \<times> (string \<times> bool) list) list"

text \<open>A stop as TraCI reports it: (lane, endPos, stoppingPlaceID, stopFlags, duration,
  until).\<close>

type_synonym stop = "string \<times> real \<times> string \<times> int \<times> real \<times> real"

text \<open>One entry of \<open>_vehicles_db\<close>; the key \<open>'final_stop_arrival'\<close> exists only once
  it has been set.\<close>

record vehicle =
  vehicle_id :: string
  departure :: real
  edge :: string
  stops :: "stop list"
  history :: "stop list list"
  vClass :: string
  passengers :: "string list"
  arrived :: "real option"
  final_stop_arrival :: "real option"

text \<open>
  The object itself: the options that the code reads (\<open>vclasses\<close> and
  \<open>subscriptions.only_parkings\<close>) and the attributes of the class. The logger, the TraCI
  handler, \<open>_edges_routers_mapping\<close> and the attributes that only keep the last answers of
  TraCI for their getters are left out.
\<close>

record monitor =
  vclasses :: "string set"
  only_parkings :: bool
  parking_db :: "(string \<times> parking) list"
  routers_db :: "(string \<times> rerouter) list"
  vehicles_db :: "(string \<times> vehicle) list"
  passengers_db :: "string fset"
  blacklisted_edges_pairs :: "(string \<times> string list) list"
  static_parking_travel_time :: "(string \<times> (real \<times> string) list) list"
  traci_starting_stop_subscriptions :: "string list option"
  traci_ending_stop_subscriptions :: "string list option"

subsection \<open>Facility lookup\<close>

text \<open>\<open>get_parking\<close>: a deep copy of the entry, or \<open>None\<close>; it has no \<open>raise\<close>.\<close>

definition get_parking :: "monitor \<Rightarrow> string \<Rightarrow> error + parking option" where
  "get_parking self parking =
     (if parking \<in> set (map fst (parking_db self))
      then Inr (map_of (parking_db self) parking)
      else Inr None)"

subsection \<open>Free places\<close>

text \<open>
  \<open>get_free_places\<close> returns an integer, or the dictionary of the integers of all
  classes.
\<close>

datatype free_places =
    Places int
  | PlacesByClass "(string \<times> int) list"

text \<open>
  The loop over \<open>projections_by_class.items()\<close>: it counts the projected vehicles and adds
  them to the working occupancy of their class; \<open>occupancy[key]\<close> raises \<open>KeyError\<close>
  for a class that the occupancy does not have.
\<close>

fun add_projections ::
  "(string \<times> string fset) list \<Rightarrow> int \<Rightarrow> (string \<times> string fset) list
     \<Rightarrow> error + (int \<times> (string \<times> string fset) list)" where
  "add_projections [] total_projections occupancy = Inr (total_projections, occupancy)"
| "add_projections ((key, vehicles) # rest) total_projections occupancy =
     (case map_of occupancy key of
        None \<Rightarrow> Inl KeyError
      | Some vs \<Rightarrow>
          add_projections rest (total_projections + int (fcard vehicles))
            (AList.update key (vs |\<union>| vehicles) occupancy))"

text \<open>
  The loop over \<open>subscriptions_by_class.items()\<close>; its state is \<open>subscriptions\<close> (the
  reserved places without a vehicle, by class), the working occupancy,
  \<open>total_subscriptions\<close> and \<open>partial_subscriptions\<close>.
\<close>

fun add_subscriptions ::
  "(string \<times> (int \<times> string fset)) list
     \<Rightarrow> (string \<times> int) list \<times> (string \<times> string fset) list \<times> int \<times> int
     \<Rightarrow> error + ((string \<times> int) list \<times> (string \<times> string fset) list \<times> int \<times> int)" where
  "add_subscriptions [] st = Inr st"
| "add_subscriptions ((key, (num, veh)) # rest)
       (subscriptions, occupancy, total_subscriptions, partial_subscriptions) =
     (case map_of occupancy key of
        None \<Rightarrow> Inl KeyError
      | Some vs \<Rightarrow>
          add_subscriptions rest
            (AList.update key (num - int (fcard veh)) subscriptions,
             AList.update key (vs |\<union>| veh) occupancy,
             total_subscriptions + num,
             partial_subscriptions + (num - int (fcard veh))))"

text \<open>
  The loop over \<open>occupancy.items()\<close> when \<open>current_capacity\<close> is not empty: for each
  class of the working occupancy it adds the error to the capacity of the class, subtracts
  the number of vehicles and, with subscriptions, the reserved places without a vehicle.
\<close>

fun subtract_occupancy ::
  "int \<Rightarrow> bool \<Rightarrow> (string \<times> int) list \<Rightarrow> (string \<times> string fset) list
     \<Rightarrow> (string \<times> int) list \<Rightarrow> error + (string \<times> int) list" where
  "subtract_occupancy err with_subscriptions subscriptions [] current_capacity =
     Inr current_capacity"
| "subtract_occupancy err with_subscriptions subscriptions ((key, vehicles) # rest)
       current_capacity =
     (case map_of current_capacity key of
        None \<Rightarrow> Inl KeyError
      | Some c \<Rightarrow>
          if with_subscriptions \<and> subscriptions \<noteq> [] then
            (case map_of subscriptions key of
               None \<Rightarrow> Inl KeyError
             | Some s \<Rightarrow>
                 subtract_occupancy err with_subscriptions subscriptions rest
                   (AList.update key (c + err - int (fcard vehicles) - s) current_capacity))
          else
            subtract_occupancy err with_subscriptions subscriptions rest
              (AList.update key (c + err - int (fcard vehicles)) current_capacity))"

text \<open>
  \<open>get_free_places\<close>. The argument \<open>sample\<close> is the value of
  \<open>round(random.normalvariate(mu, sigma))\<close>, which the code draws only with
  \<open>with_uncertainty\<close>. \<open>current_capacity\<close> and \<open>occupancy\<close> start as copies of the
  dictionaries of the facility.
\<close>

definition get_free_places ::
  "monitor \<Rightarrow> string \<Rightarrow> bool \<Rightarrow> int \<Rightarrow> string option \<Rightarrow> bool \<Rightarrow> bool
     \<Rightarrow> error + free_places" where
  "get_free_places self parking with_uncertainty sample vclass with_projections
       with_subscriptions =
     (case map_of (parking_db self) parking of
        None \<Rightarrow> Inl NotFound
      | Some p \<Rightarrow>
          (let err = (if with_uncertainty then sample else 0);
               current_capacity = capacity_by_class p;
               occupancy = occupancy_by_class p
           in case (if with_projections
                    then add_projections (projections_by_class p) 0 occupancy
                    else Inr (0, occupancy)) of
                Inl e \<Rightarrow> Inl e
              | Inr (total_projections, occupancy1) \<Rightarrow>
                  (case (if with_subscriptions
                         then add_subscriptions (subscription_items p)
                                ([], occupancy1, 0, 0)
                         else Inr ([], occupancy1, 0, 0)) of
                     Inl e \<Rightarrow> Inl e
                   | Inr (subscriptions, occupancy2, total_subscriptions, _) \<Rightarrow>
                       if current_capacity \<noteq> [] then
                         (case subtract_occupancy err with_subscriptions subscriptions
                                 occupancy2 current_capacity of
                            Inl e \<Rightarrow> Inl e
                          | Inr cc \<Rightarrow>
                              (case vclass of
                                 None \<Rightarrow> Inr (PlacesByClass cc)
                               | Some c \<Rightarrow>
                                   (case map_of cc c of
                                      Some n \<Rightarrow> Inr (Places n)
                                    | None \<Rightarrow> Inr (PlacesByClass cc))))
                       else
                         Inr (Places (total_capacity p - total_occupancy p
                                      - total_projections - total_subscriptions + err)))))"

subsection \<open>Initial values\<close>

text \<open>
  The entry of a facility as \<open>__init__\<close> fills it before it applies the generic and the
  specific configuration: the counters that TraCI reports, the first sample of the series,
  an empty set for every class in \<open>occupancy_by_class\<close> and in \<open>projections_by_class\<close>,
  and the defaults. The list of classes is \<open>options['vclasses']\<close> in the order of its
  iteration.
\<close>

definition init_parking :: "sumo_attrib \<Rightarrow> int \<Rightarrow> int \<Rightarrow> real \<Rightarrow> string list \<Rightarrow> parking" where
  "init_parking attrib capacity occupancy time classes =
     \<lparr>sumo = attrib,
      total_capacity = capacity,
      total_occupancy = occupancy,
      occupancy_series = [(occupancy, time)],
      occupancy_by_class = map (\<lambda>vclass. (vclass, {||})) classes,
      projections_by_class = map (\<lambda>vclass. (vclass, {||})) classes,
      capacity_by_class = [],
      subscriptions_by_class = [],
      subscription_sets = (\<lambda>ref. {||}),
      uncertainty = (0, 0),
      other_keys = []\<rparr>"

text \<open>
  A monitor with the given classes and registry and every other attribute at the value of
  the class body (\<open>_routers_db = dict()\<close>, \<open>_vehicles_db = dict()\<close>,
  \<open>_passengers_db = set()\<close>, the two \<open>defaultdict(list)\<close>, and \<open>None\<close> for the TraCI
  subscriptions).
\<close>

definition new_monitor :: "string set \<Rightarrow> bool \<Rightarrow> (string \<times> parking) list \<Rightarrow> monitor" where
  "new_monitor classes only db =
     \<lparr>vclasses = classes, only_parkings = only, parking_db = db,
      routers_db = [], vehicles_db = [], passengers_db = {||},
      blacklisted_edges_pairs = [], static_parking_travel_time = [],
      traci_starting_stop_subscriptions = None,
      traci_ending_stop_subscriptions = None\<rparr>"

subsection \<open>The free places of a class, in the words of the specification\<close>

text \<open>
  Section 4.5 of the specification: the working occupancy of a class is the occupied set,
  united with the projected vehicles and with the subscribed vehicles when they are
  included; the result of a class is its capacity, plus the draw, minus the size of the
  working occupancy, minus the reserved places without a vehicle when subscriptions are
  included. A class without an entry has no vehicles and no reserved places.
\<close>

definition lookup_set ::
  "(string \<times> string fset) list \<Rightarrow> string \<Rightarrow> string fset" where
  "lookup_set al c = (case map_of al c of None \<Rightarrow> {||} | Some vs \<Rightarrow> vs)"

definition subscribed_vehicles ::
  "(string \<times> (int \<times> string fset)) list \<Rightarrow> string \<Rightarrow> string fset" where
  "subscribed_vehicles al c = (case map_of al c of None \<Rightarrow> {||} | Some (num, veh) \<Rightarrow> veh)"

definition unfilled_slots ::
  "(string \<times> (int \<times> string fset)) list \<Rightarrow> string \<Rightarrow> int" where
  "unfilled_slots al c =
     (case map_of al c of None \<Rightarrow> 0 | Some (num, veh) \<Rightarrow> num - int (fcard veh))"

definition spec_occupancy_view :: "parking \<Rightarrow> bool \<Rightarrow> bool \<Rightarrow> string \<Rightarrow> string fset" where
  "spec_occupancy_view p with_projections with_subscriptions c =
     lookup_set (occupancy_by_class p) c
       |\<union>| (if with_projections then lookup_set (projections_by_class p) c else {||})
       |\<union>| (if with_subscriptions then subscribed_vehicles (subscription_items p) c
            else {||})"

definition spec_free_places_of_class ::
  "parking \<Rightarrow> int \<Rightarrow> bool \<Rightarrow> bool \<Rightarrow> string \<Rightarrow> int \<Rightarrow> int" where
  "spec_free_places_of_class p err with_projections with_subscriptions c capacity =
     capacity + err - int (fcard (spec_occupancy_view p with_projections with_subscriptions c))
       - (if with_subscriptions then unfilled_slots (subscription_items p) c else 0)"

subsection \<open>Validation\<close>

text \<open>
  \<open>_validate_parking_capacity\<close>: the classes of \<open>capacity_by_class\<close> are all and only
  the configured classes, and the capacities sum up to \<open>total_capacity\<close>.
  \<open>self._parking_db[parking]\<close> raises \<open>KeyError\<close> for an unknown id.
\<close>

definition validate_parking_capacity :: "monitor \<Rightarrow> string \<Rightarrow> error + unit" where
  "validate_parking_capacity self parking =
     (case map_of (parking_db self) parking of
        None \<Rightarrow> Inl KeyError
      | Some p \<Rightarrow>
          if set (map fst (capacity_by_class p)) \<noteq> vclasses self then Inl InvariantViolation
          else if sum_list (map snd (capacity_by_class p)) \<noteq> total_capacity p
          then Inl InvariantViolation
          else Inr ())"

text \<open>
  The loop of \<open>_validate_parking_occupancy\<close> over \<open>occupancy_by_class.items()\<close>: when
  \<open>capacity_by_class\<close> is not empty, a class with more vehicles than its capacity raises
  (and \<open>capacity_by_class[v_class]\<close> raises \<open>KeyError\<close> for a class without capacity);
  the loop adds up the numbers of vehicles.
\<close>

fun occupancy_total ::
  "(string \<times> int) list \<Rightarrow> (string \<times> string fset) list \<Rightarrow> int \<Rightarrow> error + int" where
  "occupancy_total capacity [] total' = Inr total'"
| "occupancy_total capacity ((v_class, val) # rest) total' =
     (if capacity \<noteq> [] then
        (case map_of capacity v_class of
           None \<Rightarrow> Inl KeyError
         | Some c \<Rightarrow>
             if int (fcard val) > c then Inl InvariantViolation
             else occupancy_total capacity rest (total' + int (fcard val)))
      else occupancy_total capacity rest (total' + int (fcard val)))"

definition validate_parking_occupancy :: "monitor \<Rightarrow> string \<Rightarrow> error + unit" where
  "validate_parking_occupancy self parking =
     (case map_of (parking_db self) parking of
        None \<Rightarrow> Inl KeyError
      | Some p \<Rightarrow>
          if set (map fst (occupancy_by_class p)) \<noteq> vclasses self then Inl InvariantViolation
          else
            (case occupancy_total (capacity_by_class p) (occupancy_by_class p) 0 of
               Inl e \<Rightarrow> Inl e
             | Inr total' \<Rightarrow>
                 if total' \<noteq> total_occupancy p then Inl InvariantViolation else Inr ()))"

text \<open>
  The loop of \<open>_validate_parking_subscriptions\<close> over
  \<open>subscriptions_by_class.items()\<close>: no class reserves more places than its capacity.
\<close>

fun subscriptions_within_capacity ::
  "(string \<times> int) list \<Rightarrow> (string \<times> (int \<times> nat)) list \<Rightarrow> error + unit" where
  "subscriptions_within_capacity capacity [] = Inr ()"
| "subscriptions_within_capacity capacity ((key, val) # rest) =
     (case map_of capacity key of
        None \<Rightarrow> Inl KeyError
      | Some c \<Rightarrow>
          if fst val > c then Inl InvariantViolation
          else subscriptions_within_capacity capacity rest)"

text \<open>
  \<open>_validate_parking_subscriptions\<close>; its first exception is the one for subscriptions
  that are set before \<open>capacity_by_class\<close> (\<open>NotConfigured\<close>).
\<close>

definition validate_parking_subscriptions :: "monitor \<Rightarrow> string \<Rightarrow> error + unit" where
  "validate_parking_subscriptions self parking =
     (case map_of (parking_db self) parking of
        None \<Rightarrow> Inl KeyError
      | Some p \<Rightarrow>
          if capacity_by_class p = [] then Inl NotConfigured
          else if set (map fst (subscriptions_by_class p)) \<noteq> vclasses self
          then Inl InvariantViolation
          else subscriptions_within_capacity (capacity_by_class p) (subscriptions_by_class p))"

subsection \<open>Capacities, subscriptions and projections of a facility\<close>

text \<open>
  A method that changes the object returns its result (or its exception) together with the
  object after the call: an exception does not undo the assignments before it.
\<close>

definition get_parking_capacity_vclass ::
  "monitor \<Rightarrow> string \<Rightarrow> error + (string \<times> int) list" where
  "get_parking_capacity_vclass self parking =
     (case map_of (parking_db self) parking of
        Some p \<Rightarrow> Inr (capacity_by_class p)
      | None \<Rightarrow> Inl NotFound)"

definition set_parking_capacity_vclass ::
  "monitor \<Rightarrow> string \<Rightarrow> (string \<times> int) list \<Rightarrow> (error + unit) \<times> monitor" where
  "set_parking_capacity_vclass self parking capacities =
     (case map_of (parking_db self) parking of
        Some p \<Rightarrow>
          (let self1 = self\<lparr>parking_db :=
                 AList.update parking (p\<lparr>capacity_by_class := capacities\<rparr>) (parking_db self)\<rparr>
           in (validate_parking_capacity self1 parking, self1))
      | None \<Rightarrow> (Inl NotFound, self))"

text \<open>
  \<open>get_parking_subscriptions\<close> and \<open>set_parking_subscriptions\<close>: the deep copy of a
  dictionary of subscriptions has new set objects with the same sharing, so it is the same
  dictionary of addresses with the same store.
\<close>

definition get_parking_subscriptions :: "monitor \<Rightarrow> string \<Rightarrow> error + subscriptions" where
  "get_parking_subscriptions self parking =
     (case map_of (parking_db self) parking of
        Some p \<Rightarrow> Inr (subscriptions_by_class p, subscription_sets p)
      | None \<Rightarrow> Inl NotFound)"

definition set_parking_subscriptions ::
  "monitor \<Rightarrow> string \<Rightarrow> subscriptions \<Rightarrow> (error + unit) \<times> monitor" where
  "set_parking_subscriptions self parking subscriptions =
     (case map_of (parking_db self) parking of
        Some p \<Rightarrow>
          (let self1 = self\<lparr>parking_db :=
                 AList.update parking
                   (p\<lparr>subscriptions_by_class := fst subscriptions,
                      subscription_sets := snd subscriptions\<rparr>)
                   (parking_db self)\<rparr>
           in (validate_parking_subscriptions self1 parking, self1))
      | None \<Rightarrow> (Inl NotFound, self))"

text \<open>
  \<open>subscribe_vehicle_to_parking\<close>: \<open>_capacity, vehicles = ...[vclass]\<close> reads the entry
  of the class, and \<open>vehicles.add(vehicle)\<close> changes the set object of the entry in place:
  the dictionary stays as it is, and every class that holds the same set object sees the
  vehicle.
\<close>

definition subscribe_vehicle_to_parking ::
  "monitor \<Rightarrow> string \<Rightarrow> string \<Rightarrow> string \<Rightarrow> (error + bool) \<times> monitor" where
  "subscribe_vehicle_to_parking self parking vclass vehicle =
     (case map_of (parking_db self) parking of
        Some p \<Rightarrow>
          (case map_of (subscriptions_by_class p) vclass of
             Some (capacity, ref) \<Rightarrow>
               (let vehicles = subscription_sets p ref
                in if vehicle |\<in>| vehicles then (Inr False, self)
                   else if int (fcard vehicles) < capacity then
                     (Inr True,
                      self\<lparr>parking_db := AList.update parking
                        (p\<lparr>subscription_sets :=
                             (subscription_sets p)(ref := finsert vehicle vehicles)\<rparr>)
                        (parking_db self)\<rparr>)
                   else (Inr False, self))
           | None \<Rightarrow> (Inl NotConfigured, self))
      | None \<Rightarrow> (Inl NotFound, self))"

text \<open>\<open>remove_subscribed_vehicle\<close>: \<open>vehicles.remove(vehicle)\<close> changes the set object
  in place, too.\<close>

definition remove_subscribed_vehicle ::
  "monitor \<Rightarrow> string \<Rightarrow> string \<Rightarrow> string \<Rightarrow> (error + bool) \<times> monitor" where
  "remove_subscribed_vehicle self parking vclass vehicle =
     (case map_of (parking_db self) parking of
        Some p \<Rightarrow>
          (case map_of (subscriptions_by_class p) vclass of
             Some (capacity, ref) \<Rightarrow>
               (let vehicles = subscription_sets p ref
                in if vehicle |\<in>| vehicles then
                     (Inr True,
                      self\<lparr>parking_db := AList.update parking
                        (p\<lparr>subscription_sets :=
                             (subscription_sets p)(ref := vehicles |-| {|vehicle|})\<rparr>)
                        (parking_db self)\<rparr>)
                   else (Inr False, self))
           | None \<Rightarrow> (Inl NotConfigured, self))
      | None \<Rightarrow> (Inl NotFound, self))"

text \<open>
  The value of \<open>self._parking_db[parking]['subscriptions_by_class'][vclass]\<close>: the number
  of reserved places of the class and the vehicles in its set object (\<open>None\<close> without
  such an entry).
\<close>

definition subscription_entry :: "monitor \<Rightarrow> string \<Rightarrow> string \<Rightarrow> (int \<times> string fset) option" where
  "subscription_entry self parking vclass =
     (case map_of (parking_db self) parking of
        None \<Rightarrow> None
      | Some p \<Rightarrow> map_of (subscription_items p) vclass)"

text \<open>
  \<open>get_parking_projections\<close> reads the key \<open>'projection_by_class'\<close> of the entry.
  \<open>__init__\<close> creates the key \<open>'projections_by_class'\<close> (the field of the record), so
  the key that is read is one of the other keys, and \<open>KeyError\<close> is raised when the entry
  does not have it.
\<close>

definition get_parking_projections :: "monitor \<Rightarrow> string \<Rightarrow> error + conf_value" where
  "get_parking_projections self parking =
     (case map_of (parking_db self) parking of
        Some p \<Rightarrow>
          (case map_of (other_keys p) ''projection_by_class'' of
             Some v \<Rightarrow> Inr v
           | None \<Rightarrow> Inl KeyError)
      | None \<Rightarrow> Inl NotFound)"

subsection \<open>Example registries\<close>

text \<open>
  The facility \<open>P1\<close> for the single class \<open>car\<close>, with a total capacity of 10 and no
  vehicle inside, as \<open>__init__\<close> creates it and then assigns the capacities and the
  subscriptions of its specific configuration; and the monitor whose registry holds this
  facility only. \<open>no_subscriptions\<close> is the empty dictionary of subscriptions, and
  \<open>single_class\<close> a dictionary with one class, whose set object is at address 0.
\<close>

definition no_subscriptions :: subscriptions where
  "no_subscriptions = ([], (\<lambda>ref. {||}))"

definition single_class :: "string \<Rightarrow> int \<Rightarrow> string fset \<Rightarrow> subscriptions" where
  "single_class vclass num vehicles = ([(vclass, (num, 0))], (\<lambda>ref. {||})(0 := vehicles))"

definition car_park :: "(string \<times> int) list \<Rightarrow> subscriptions \<Rightarrow> parking" where
  "car_park capacities subscriptions =
     (init_parking \<lparr>sumo_id = ''P1'', lane = ''e1_0'', endPos = 50\<rparr> 10 0 0 [''car''])
       \<lparr>capacity_by_class := capacities,
        subscriptions_by_class := fst subscriptions,
        subscription_sets := snd subscriptions\<rparr>"

definition car_monitor :: "(string \<times> int) list \<Rightarrow> subscriptions \<Rightarrow> monitor" where
  "car_monitor capacities subscriptions =
     new_monitor {''car''} False [(''P1'', car_park capacities subscriptions)]"

text \<open>
  The facility \<open>P1\<close> for the classes \<open>car\<close> and \<open>truck\<close>, with a total capacity of 10,
  the given capacities by class and no subscriptions; and its monitor. \<open>shared_set\<close> is a
  dictionary of subscriptions in which both classes reserve two places and hold one and
  the same (empty) set object, as in
  \<open>s = set(); {'car': (2, s), 'truck': (2, s)}\<close>.
\<close>

definition car_truck_park :: "(string \<times> int) list \<Rightarrow> parking" where
  "car_truck_park capacities =
     (init_parking \<lparr>sumo_id = ''P1'', lane = ''e1_0'', endPos = 50\<rparr> 10 0 0
        [''car'', ''truck''])
       \<lparr>capacity_by_class := capacities\<rparr>"

definition car_truck_monitor :: "(string \<times> int) list \<Rightarrow> monitor" where
  "car_truck_monitor capacities =
     new_monitor {''car'', ''truck''} False [(''P1'', car_truck_park capacities)]"

definition shared_set :: subscriptions where
  "shared_set = ([(''car'', (2, 0)), (''truck'', (2, 0))], (\<lambda>ref. {||}))"

text \<open>
  The same facility with the capacities \<open>car: 5\<close> and \<open>truck: 5\<close> and the given
  subscriptions, in its monitor; \<open>own_sets\<close> is a dictionary of subscriptions in which
  both classes reserve two places and each class has a set object of its own, the one of
  the cars holding \<open>v1\<close>.
\<close>

definition car_truck_subscribed :: "subscriptions \<Rightarrow> monitor" where
  "car_truck_subscribed subscriptions =
     new_monitor {''car'', ''truck''} False
       [(''P1'', (car_truck_park [(''car'', 5), (''truck'', 5)])
                   \<lparr>subscriptions_by_class := fst subscriptions,
                    subscription_sets := snd subscriptions\<rparr>)]"

definition own_sets :: subscriptions where
  "own_sets = ([(''car'', (2, 0)), (''truck'', (2, 1))], (\<lambda>ref. {||})(0 := {|''v1''|}))"

text \<open>
  The facility of the example of the specification: the capacities \<open>car: 8\<close> and
  \<open>truck: 2\<close>, the cars \<open>v1\<close> and \<open>v2\<close> inside; in addition the car \<open>v3\<close> is
  projected, two places are reserved for cars (one of them by \<open>v1\<close>) and one for trucks.
\<close>

definition busy_park :: parking where
  "busy_park = (car_truck_park [(''car'', 8), (''truck'', 2)])
     \<lparr>total_occupancy := 2,
      occupancy_by_class := [(''car'', {|''v1'', ''v2''|}), (''truck'', {||})],
      projections_by_class := [(''car'', {|''v3''|}), (''truck'', {||})],
      subscriptions_by_class := [(''car'', (2, 0)), (''truck'', (1, 1))],
      subscription_sets := (\<lambda>ref. {||})(0 := {|''v1''|})\<rparr>"

subsection \<open>Rerouters\<close>

text \<open>
  The inner loop of \<open>get_rerouter_iterator\<close> over the intervals of one rerouter, with
  the variable \<open>current\<close> as its state. \<open>not current\<close> holds for \<open>None\<close> and for an
  empty list. The step is a float, the end of an interval an integer.
\<close>

fun rerouter_current ::
  "real \<Rightarrow> (string \<times> bool) list option \<Rightarrow> (int \<times> (string \<times> bool) list) list
     \<Rightarrow> (string \<times> bool) list option" where
  "rerouter_current step current [] = current"
| "rerouter_current step current ((end', parkings) # rest) =
     (let current1 = (if current = None \<or> current = Some [] then Some parkings else current)
      in if step \<le> real_of_int end' then rerouter_current step (Some parkings) rest
         else current1)"

text \<open>The dictionary that the iterator yields for a rerouter: \<open>'id'\<close>, \<open>'edges'\<close> and
  \<open>'info'\<close>.\<close>

record rerouter_info =
  info_id :: string
  info_edges :: "string list"
  info :: "(string \<times> bool) list option"

text \<open>The generator \<open>get_rerouter_iterator\<close>, as the list of what it yields.\<close>

definition get_rerouter_iterator :: "monitor \<Rightarrow> real \<Rightarrow> rerouter_info list" where
  "get_rerouter_iterator self step =
     map (\<lambda>(_, val).
            \<lparr>info_id = rerouter_id val,
             info_edges = edges val,
             info = rerouter_current step None (intervals val)\<rparr>)
       (routers_db self)"

text \<open>
  In the words of the specification: the offer of the first interval of the list whose end
  time is greater than or equal to the step.
\<close>

definition spec_first_active ::
  "real \<Rightarrow> (int \<times> (string \<times> bool) list) list \<Rightarrow> (string \<times> bool) list option" where
  "spec_first_active step ivs =
     map_option snd (find (\<lambda>(end', parkings). step \<le> real_of_int end') ivs)"

text \<open>
  An example: the rerouter \<open>R1\<close> with two intervals, the first ending at 1000 and
  offering \<open>A\<close>, the second ending at 2000 and offering \<open>B\<close>.
\<close>

definition two_intervals :: monitor where
  "two_intervals = (new_monitor {''car''} False [])\<lparr>routers_db :=
     [(''R1'', \<lparr>rerouter_id = ''R1'', edges = [''e1''],
        intervals = [(1000, [(''A'', True)]), (2000, [(''B'', True)])]\<rparr>)]\<rparr>"

subsection \<open>Travel times between facilities\<close>

text \<open>
  The answer of \<open>simulation.findRoute\<close>: it raises \<open>TraCIException\<close>, or it returns a
  stage with its edges and its travel time. The routing oracle is a function of the two
  edges.
\<close>

datatype route_reply =
    TraCIException
  | Stage "string list" real

text \<open>Reading \<open>d[k]\<close> of a \<open>defaultdict(list)\<close>: a missing key is created with an
  empty list.\<close>

definition defaultdict_get ::
  "(string \<times> 'a list) list \<Rightarrow> string \<Rightarrow> 'a list \<times> (string \<times> 'a list) list" where
  "defaultdict_get d k =
     (case map_of d k of
        Some v \<Rightarrow> (v, d)
      | None \<Rightarrow> ([], AList.update k [] d))"

text \<open>
  The inner loop of \<open>compute_parking_travel_time\<close> over the destinations of one origin;
  its state is \<open>_blacklisted_edges_pairs\<close> and \<open>_static_parking_travel_time\<close>. A cost is
  stored when the route has edges and its travel time is not zero.
\<close>

fun travel_time_from ::
  "(string \<Rightarrow> string \<Rightarrow> route_reply) \<Rightarrow> string \<times> string \<times> real
     \<Rightarrow> (string \<times> string \<times> real) list
     \<Rightarrow> (string \<times> string list) list \<times> (string \<times> (real \<times> string) list) list
     \<Rightarrow> (string \<times> string list) list \<times> (string \<times> (real \<times> string) list) list" where
  "travel_time_from find_route origin [] st = st"
| "travel_time_from find_route (from_pid, from_edge, from_end_pos)
       ((to_pid, to_edge, to_end_pos) # rest) (blacklisted, travel_time) =
     (if from_pid = to_pid then
        travel_time_from find_route (from_pid, from_edge, from_end_pos) rest
          (blacklisted, travel_time)
      else if from_edge = to_edge \<and> to_end_pos \<le> from_end_pos then
        travel_time_from find_route (from_pid, from_edge, from_end_pos) rest
          (blacklisted, travel_time)
      else
        (case defaultdict_get blacklisted from_edge of
           (listed, blacklisted1) \<Rightarrow>
             if to_edge \<in> set listed then
               travel_time_from find_route (from_pid, from_edge, from_end_pos) rest
                 (blacklisted1, travel_time)
             else
               (case find_route from_edge to_edge of
                  TraCIException \<Rightarrow>
                    travel_time_from find_route (from_pid, from_edge, from_end_pos) rest
                      (AList.update from_edge (listed @ [to_edge]) blacklisted1, travel_time)
                | Stage route_edges cost \<Rightarrow>
                    if route_edges \<noteq> [] \<and> cost \<noteq> 0 then
                      travel_time_from find_route (from_pid, from_edge, from_end_pos) rest
                        (blacklisted1,
                         AList.update from_pid
                           (fst (defaultdict_get travel_time from_pid) @ [(cost, to_pid)])
                           travel_time)
                    else
                      travel_time_from find_route (from_pid, from_edge, from_end_pos) rest
                        (blacklisted1, travel_time))))"

text \<open>The outer loop over the origins.\<close>

fun travel_time_all ::
  "(string \<Rightarrow> string \<Rightarrow> route_reply) \<Rightarrow> (string \<times> string \<times> real) list
     \<Rightarrow> (string \<times> string \<times> real) list
     \<Rightarrow> (string \<times> string list) list \<times> (string \<times> (real \<times> string) list) list
     \<Rightarrow> (string \<times> string list) list \<times> (string \<times> (real \<times> string) list) list" where
  "travel_time_all find_route [] parkings st = st"
| "travel_time_all find_route (origin # rest) parkings st =
     travel_time_all find_route rest parkings
       (travel_time_from find_route origin parkings st)"

text \<open>
  \<open>compute_parking_travel_time\<close>: it starts from an empty structure, lists the
  facilities with their id, their edge (the lane up to its first underscore) and their end
  position, runs the loops and sorts the list of every origin. Python orders the pairs
  (cost, id) by cost and then by id, as the lexicographic order of pairs does.
\<close>

definition compute_parking_travel_time ::
  "monitor \<Rightarrow> (string \<Rightarrow> string \<Rightarrow> route_reply) \<Rightarrow> monitor" where
  "compute_parking_travel_time self find_route =
     (let parkings = map (\<lambda>(_, parking).
                       (sumo_id (sumo parking),
                        takeWhile (\<lambda>c. c \<noteq> CHR ''_'') (lane (sumo parking)),
                        endPos (sumo parking)))
                     (parking_db self)
      in case travel_time_all find_route parkings parkings
                (blacklisted_edges_pairs self, []) of
           (blacklisted, travel_time) \<Rightarrow>
             self\<lparr>blacklisted_edges_pairs := blacklisted,
                  static_parking_travel_time :=
                    map (\<lambda>(pid, distances). (pid, sort distances)) travel_time\<rparr>)"

text \<open>
  The loop of \<open>get_closest_parkings\<close>: it stops when \<open>num\<close> is true (neither \<open>None\<close>
  nor 0) and the result has \<open>num\<close> items.
\<close>

fun closest_loop ::
  "int option \<Rightarrow> (real \<times> string) list \<Rightarrow> (real \<times> string) list \<Rightarrow> (real \<times> string) list" where
  "closest_loop num [] parkings = parkings"
| "closest_loop num (item # rest) parkings =
     (if num \<noteq> None \<and> num \<noteq> Some 0 \<and> Some (int (length parkings)) = num then parkings
      else closest_loop num rest (parkings @ [item]))"

text \<open>\<open>get_closest_parkings\<close>: \<open>not self._static_parking_travel_time\<close> holds for the
  empty structure.\<close>

definition get_closest_parkings ::
  "monitor \<Rightarrow> string \<Rightarrow> int option \<Rightarrow> error + (real \<times> string) list" where
  "get_closest_parkings self parking num =
     (if static_parking_travel_time self = [] then Inl NotInitialized
      else
        (case map_of (static_parking_travel_time self) parking of
           Some items \<Rightarrow> Inr (closest_loop num items [])
         | None \<Rightarrow> Inr []))"

text \<open>
  Examples: the facilities \<open>P1\<close>, \<open>P2\<close> and \<open>P3\<close> on three edges; a routing oracle that
  finds no route, and one that finds a route of travel time 5 to the edge of \<open>P2\<close>, of
  travel time 3 to the edge of \<open>P3\<close> and no route to the edge of \<open>P1\<close>.
\<close>

definition three_parkings :: monitor where
  "three_parkings = new_monitor {''car''} False
     [(''P1'', init_parking \<lparr>sumo_id = ''P1'', lane = ''e1_0'', endPos = 50\<rparr> 10 0 0 [''car'']),
      (''P2'', init_parking \<lparr>sumo_id = ''P2'', lane = ''e2_0'', endPos = 50\<rparr> 10 0 0 [''car'']),
      (''P3'', init_parking \<lparr>sumo_id = ''P3'', lane = ''e3_0'', endPos = 50\<rparr> 10 0 0 [''car''])]"

definition no_route :: "string \<Rightarrow> string \<Rightarrow> route_reply" where
  "no_route from_edge to_edge = TraCIException"

definition routes_to_e2_e3 :: "string \<Rightarrow> string \<Rightarrow> route_reply" where
  "routes_to_e2_e3 from_edge to_edge =
     (if to_edge = ''e2'' then Stage [from_edge, to_edge] 5
      else if to_edge = ''e3'' then Stage [from_edge, to_edge] 3
      else TraCIException)"

subsection \<open>The simulation step\<close>

text \<open>
  What TraCI answers during one call of \<open>step\<close>: the simulation time, the departed and
  the arrived vehicles, the class, the next stops and the persons of a vehicle, the results
  of the vehicle subscriptions (for each vehicle its road, its next stops and its persons),
  the occupancy of a parking area (\<open>int(getParameter(..., 'parkingArea.occupancy'))\<close>),
  and the vehicles that start and that end a parking stop (the results of the simulation
  subscription).
\<close>

record traci_step =
  sim_time :: real
  departed_ids :: "string list"
  vehicle_class :: "string \<Rightarrow> string"
  next_stops :: "string \<Rightarrow> stop list"
  person_ids :: "string \<Rightarrow> string list"
  arrived_ids :: "string list"
  vehicle_results :: "(string \<times> (string \<times> stop list \<times> string list)) list"
  parking_occupancy :: "string \<Rightarrow> int"
  starting_vehicles :: "string list"
  ending_vehicles :: "string list"

text \<open>The third and the fourth component of a stop.\<close>

definition stopping_place :: "stop \<Rightarrow> string" where
  "stopping_place s = (case s of (_, _, place, _, _, _) \<Rightarrow> place)"

definition stop_flags :: "stop \<Rightarrow> int" where
  "stop_flags s = (case s of (_, _, _, flags, _, _) \<Rightarrow> flags)"

definition is_parking_area :: "int \<Rightarrow> bool" where
  "is_parking_area flags = (and flags 128 = 128)"

text \<open>A \<open>for\<close> loop whose body may raise: the first exception ends the loop.\<close>

fun for_each :: "('a \<Rightarrow> 's \<Rightarrow> error + 's) \<Rightarrow> 'a list \<Rightarrow> 's \<Rightarrow> error + 's" where
  "for_each body [] s = Inr s"
| "for_each body (x # xs) s =
     (case body x s of Inl e \<Rightarrow> Inl e | Inr s1 \<Rightarrow> for_each body xs s1)"

text \<open>
  \<open>sets[v_class].add(vehicle)\<close> and \<open>sets[v_class].remove(vehicle)\<close> on a dictionary of
  sets: \<open>KeyError\<close> for a class without entry, and for the removal of a vehicle that is
  not in the set.
\<close>

definition add_to_class ::
  "string \<Rightarrow> string \<Rightarrow> (string \<times> string fset) list \<Rightarrow> error + (string \<times> string fset) list" where
  "add_to_class v_class vehicle sets =
     (case map_of sets v_class of
        None \<Rightarrow> Inl KeyError
      | Some vs \<Rightarrow> Inr (AList.update v_class (finsert vehicle vs) sets))"

definition remove_from_class ::
  "string \<Rightarrow> string \<Rightarrow> (string \<times> string fset) list \<Rightarrow> error + (string \<times> string fset) list" where
  "remove_from_class v_class vehicle sets =
     (case map_of sets v_class of
        None \<Rightarrow> Inl KeyError
      | Some vs \<Rightarrow>
          if vehicle |\<in>| vs then Inr (AList.update v_class (vs |-| {|vehicle|}) sets)
          else Inl KeyError)"

text \<open>A change of the entry \<open>self._parking_db[area]\<close>: \<open>KeyError\<close> for an unknown
  area.\<close>

definition update_parking ::
  "string \<Rightarrow> (parking \<Rightarrow> error + parking) \<Rightarrow> (string \<times> parking) list
     \<Rightarrow> error + (string \<times> parking) list" where
  "update_parking area change db =
     (case map_of db area of
        None \<Rightarrow> Inl KeyError
      | Some p \<Rightarrow>
          (case change p of
             Inl e \<Rightarrow> Inl e
           | Inr p1 \<Rightarrow> Inr (AList.update area p1 db)))"

definition add_projection ::
  "string \<Rightarrow> string \<Rightarrow> string \<Rightarrow> (string \<times> parking) list \<Rightarrow> error + (string \<times> parking) list" where
  "add_projection v_class vehicle area db =
     update_parking area
       (\<lambda>p. case add_to_class v_class vehicle (projections_by_class p) of
               Inl e \<Rightarrow> Inl e
             | Inr sets \<Rightarrow> Inr (p\<lparr>projections_by_class := sets\<rparr>)) db"

definition remove_projection ::
  "string \<Rightarrow> string \<Rightarrow> string \<Rightarrow> (string \<times> parking) list \<Rightarrow> error + (string \<times> parking) list" where
  "remove_projection v_class vehicle area db =
     update_parking area
       (\<lambda>p. case remove_from_class v_class vehicle (projections_by_class p) of
               Inl e \<Rightarrow> Inl e
             | Inr sets \<Rightarrow> Inr (p\<lparr>projections_by_class := sets\<rparr>)) db"

text \<open>
  The body of the first loop of \<open>_monitor_vehicles\<close>, for one departed vehicle. The set
  \<open>_new_stops\<close> is iterated in the order of the stops.
\<close>

definition monitor_departed_vehicle :: "traci_step \<Rightarrow> string \<Rightarrow> monitor \<Rightarrow> error + monitor" where
  "monitor_departed_vehicle traci vehicle self =
     (let v_class = vehicle_class traci vehicle
      in if only_parkings self \<and> v_class \<in> set [''bus'', ''rail''] then Inr self
         else
           (let stops = next_stops traci vehicle;
                current_stops = filter (\<lambda>s. is_parking_area (stop_flags s)) stops;
                new_stops = remdups (map stopping_place current_stops)
            in if only_parkings self \<and> current_stops = [] then Inr self
               else
                 (let passengers = person_ids traci vehicle;
                      self1 = self\<lparr>
                        passengers_db := passengers_db self |\<union>| fset_of_list passengers,
                        vehicles_db := AList.update vehicle
                          \<lparr>vehicle_id = vehicle, departure = sim_time traci, edge = '''',
                           stops = current_stops, history = [], vClass = v_class,
                           passengers = passengers, arrived = None,
                           final_stop_arrival = None\<rparr>
                          (vehicles_db self)\<rparr>
                  in case for_each (add_projection v_class vehicle) new_stops
                            (parking_db self1) of
                       Inl e \<Rightarrow> Inl e
                     | Inr db \<Rightarrow> Inr (self1\<lparr>parking_db := db\<rparr>))))"

text \<open>The body of the second loop of \<open>_monitor_vehicles\<close>, for one arrived vehicle.\<close>

definition monitor_arrived_vehicle :: "traci_step \<Rightarrow> string \<Rightarrow> monitor \<Rightarrow> error + monitor" where
  "monitor_arrived_vehicle traci vehicle self =
     (case map_of (vehicles_db self) vehicle of
        Some v \<Rightarrow>
          Inr (self\<lparr>vehicles_db :=
                 AList.update vehicle (v\<lparr>arrived := Some (sim_time traci)\<rparr>) (vehicles_db self)\<rparr>)
      | None \<Rightarrow> Inr self)"

definition monitor_vehicles :: "traci_step \<Rightarrow> monitor \<Rightarrow> error + monitor" where
  "monitor_vehicles traci self =
     (case for_each (monitor_departed_vehicle traci) (departed_ids traci) self of
        Inl e \<Rightarrow> Inl e
      | Inr self1 \<Rightarrow> for_each (monitor_arrived_vehicle traci) (arrived_ids traci) self1)"

text \<open>\<open>_is_same_destinations\<close>: the same number of stops, and the same stopping place
  at every position.\<close>

definition is_same_destinations :: "stop list \<Rightarrow> stop list \<Rightarrow> bool" where
  "is_same_destinations a_stops b_stops =
     (if length a_stops \<noteq> length b_stops then False
      else list_all (\<lambda>pos. stopping_place (a_stops ! pos) = stopping_place (b_stops ! pos))
             [0..<length a_stops])"

text \<open>
  The body of the loop of \<open>_update_vehicles_db\<close>, for one vehicle with its subscription
  results; \<open>self._vehicles_db[vehicle]\<close> raises \<open>KeyError\<close> for a vehicle that is not
  tracked. The differences of the two sets of stops are iterated in the order of the stops.
\<close>

definition update_vehicle ::
  "traci_step \<Rightarrow> string \<times> (string \<times> stop list \<times> string list) \<Rightarrow> monitor \<Rightarrow> error + monitor" where
  "update_vehicle traci result self =
     (case result of (vehicle, road, data_stops, persons) \<Rightarrow>
        (case map_of (vehicles_db self) vehicle of
           None \<Rightarrow> Inl KeyError
         | Some v0 \<Rightarrow>
             (let v = v0\<lparr>edge := road, passengers := persons\<rparr>;
                  self1 = self\<lparr>
                    vehicles_db := AList.update vehicle v (vehicles_db self),
                    passengers_db := passengers_db self |\<union>| fset_of_list persons\<rparr>;
                  current_stops = filter (\<lambda>s. is_parking_area (stop_flags s)) data_stops;
                  new_stops = remdups (map stopping_place current_stops)
              in if is_same_destinations (stops v) current_stops then Inr self1
                 else
                   (let old_stops = remdups (map stopping_place (stops v));
                        v_class = vClass v
                    in case for_each (remove_projection v_class vehicle)
                              (filter (\<lambda>area. area \<notin> set new_stops) old_stops)
                              (parking_db self1) of
                         Inl e \<Rightarrow> Inl e
                       | Inr db1 \<Rightarrow>
                           (case for_each (add_projection v_class vehicle)
                                   (filter (\<lambda>area. area \<notin> set old_stops) new_stops) db1 of
                              Inl e \<Rightarrow> Inl e
                            | Inr db2 \<Rightarrow>
                                Inr (self1\<lparr>
                                  parking_db := db2,
                                  vehicles_db := AList.update vehicle
                                    (v\<lparr>history := history v @ [stops v],
                                       stops := current_stops,
                                       final_stop_arrival :=
                                         (if final_stop_arrival v = None \<and> current_stops = []
                                          then Some (sim_time traci)
                                          else final_stop_arrival v)\<rparr>)
                                    (vehicles_db self1)\<rparr>))))))"

definition update_vehicles_db :: "traci_step \<Rightarrow> monitor \<Rightarrow> error + monitor" where
  "update_vehicles_db traci self = for_each (update_vehicle traci) (vehicle_results traci) self"

text \<open>\<open>_check_occupancy\<close>: a facility whose occupancy has changed gets a new sample
  and the new total.\<close>

definition check_occupancy :: "traci_step \<Rightarrow> monitor \<Rightarrow> monitor" where
  "check_occupancy traci self =
     self\<lparr>parking_db :=
       map (\<lambda>(parking, p).
              (parking,
               if total_occupancy p \<noteq> parking_occupancy traci parking
               then p\<lparr>occupancy_series :=
                        occupancy_series p
                          @ [(parking_occupancy traci parking, sim_time traci)],
                      total_occupancy := parking_occupancy traci parking\<rparr>
               else p))
         (parking_db self)\<rparr>"

text \<open>
  \<open>_get_parking_area_from_vehicle\<close>: the stopping place of the first stop of the last
  list of the history, or \<open>None\<close> without history. \<open>KeyError\<close> for a vehicle that is not
  tracked, \<open>IndexError\<close> when the last list of the history is empty.
\<close>

definition get_parking_area_from_vehicle :: "monitor \<Rightarrow> string \<Rightarrow> error + string option" where
  "get_parking_area_from_vehicle self vehicle =
     (case map_of (vehicles_db self) vehicle of
        None \<Rightarrow> Inl KeyError
      | Some v \<Rightarrow>
          if history v \<noteq> [] then
            (case last (history v) of
               [] \<Rightarrow> Inl IndexError
             | s # _ \<Rightarrow> Inr (Some (stopping_place s)))
          else Inr None)"

text \<open>
  The body of the loop of \<open>_update_parking_db\<close> over the vehicles that ended their stop;
  its state is the object and \<open>_to_validate\<close> (in the order of the additions). A
  \<open>KeyError\<close> of the removal is raised again as the exception of a vehicle that cannot
  be removed.
\<close>

definition ending_vehicle ::
  "string \<Rightarrow> monitor \<times> string list \<Rightarrow> error + (monitor \<times> string list)" where
  "ending_vehicle vehicle st =
     (case st of (self, to_validate) \<Rightarrow>
        (case get_parking_area_from_vehicle self vehicle of
           Inl e \<Rightarrow> Inl e
         | Inr parking_area \<Rightarrow>
             (case parking_area of
                None \<Rightarrow> Inr (self, to_validate)
              | Some area \<Rightarrow>
                  (case map_of (parking_db self) area of
                     None \<Rightarrow> Inr (self, to_validate)
                   | Some p \<Rightarrow>
                       (case map_of (vehicles_db self) vehicle of
                          None \<Rightarrow> Inl KeyError
                        | Some v \<Rightarrow>
                            (case remove_from_class (vClass v) vehicle
                                    (occupancy_by_class p) of
                               Inl e \<Rightarrow> Inl InconsistentState
                             | Inr sets \<Rightarrow>
                                 Inr (self\<lparr>parking_db :=
                                        AList.update area (p\<lparr>occupancy_by_class := sets\<rparr>)
                                          (parking_db self)\<rparr>,
                                      to_validate @ [area])))))))"

text \<open>The body of the loop over the vehicles that started a stop.\<close>

definition starting_vehicle ::
  "string \<Rightarrow> monitor \<times> string list \<Rightarrow> error + (monitor \<times> string list)" where
  "starting_vehicle vehicle st =
     (case st of (self, to_validate) \<Rightarrow>
        (case get_parking_area_from_vehicle self vehicle of
           Inl e \<Rightarrow> Inl e
         | Inr parking_area \<Rightarrow>
             (case parking_area of
                None \<Rightarrow> Inr (self, to_validate)
              | Some area \<Rightarrow>
                  (case map_of (parking_db self) area of
                     None \<Rightarrow> Inr (self, to_validate)
                   | Some p \<Rightarrow>
                       (case map_of (vehicles_db self) vehicle of
                          None \<Rightarrow> Inl KeyError
                        | Some v \<Rightarrow>
                            (case add_to_class (vClass v) vehicle (occupancy_by_class p) of
                               Inl e \<Rightarrow> Inl e
                             | Inr sets \<Rightarrow>
                                 Inr (self\<lparr>parking_db :=
                                        AList.update area (p\<lparr>occupancy_by_class := sets\<rparr>)
                                          (parking_db self)\<rparr>,
                                      to_validate @ [area])))))))"

text \<open>
  \<open>_update_parking_db\<close>: the occupancies, the vehicles that ended their stop (the list of
  the previous step), the new lists of the simulation subscription, the vehicles that
  started a stop, and the validation of the facilities in \<open>_to_validate\<close>.
\<close>

definition update_parking_db :: "traci_step \<Rightarrow> monitor \<Rightarrow> error + monitor" where
  "update_parking_db traci self =
     (let self1 = check_occupancy traci self
      in case for_each ending_vehicle
                (case traci_ending_stop_subscriptions self1 of None \<Rightarrow> [] | Some l \<Rightarrow> l)
                (self1, []) of
           Inl e \<Rightarrow> Inl e
         | Inr (self2, to_validate2) \<Rightarrow>
             (let self3 = self2\<lparr>
                    traci_starting_stop_subscriptions := Some (starting_vehicles traci),
                    traci_ending_stop_subscriptions := Some (ending_vehicles traci)\<rparr>
              in case for_each starting_vehicle (starting_vehicles traci)
                        (self3, to_validate2) of
                   Inl e \<Rightarrow> Inl e
                 | Inr (self4, to_validate4) \<Rightarrow>
                     (case for_each (\<lambda>pid s. case validate_parking_occupancy s pid of
                                               Inl e \<Rightarrow> Inl e | Inr _ \<Rightarrow> Inr s)
                             to_validate4 self4 of
                        Inl e \<Rightarrow> Inl e
                      | Inr self5 \<Rightarrow> Inr self5)))"

text \<open>\<open>step\<close>: the three phases in their order; a completed step is \<open>Inr\<close> of the
  object after it.\<close>

definition step :: "traci_step \<Rightarrow> monitor \<Rightarrow> error + monitor" where
  "step traci self =
     (case monitor_vehicles traci self of
        Inl e \<Rightarrow> Inl e
      | Inr self1 \<Rightarrow>
          (case update_vehicles_db traci self1 of
             Inl e \<Rightarrow> Inl e
           | Inr self2 \<Rightarrow> update_parking_db traci self2))"

text \<open>
  Examples for the step. The answers of TraCI in a step without departed or arrived
  vehicles and without vehicle results, in which every parking area reports the given
  occupancy and the given vehicles start a parking stop; and the monitor of \<open>P1\<close> that
  tracks the car \<open>v1\<close>, whose last superseded list of stops is a stop at \<open>P1\<close>.
\<close>

definition quiet_step :: "int \<Rightarrow> string list \<Rightarrow> traci_step" where
  "quiet_step occupancy starting =
     \<lparr>sim_time = 1, departed_ids = [], vehicle_class = (\<lambda>vehicle. ''car''),
      next_stops = (\<lambda>vehicle. []), person_ids = (\<lambda>vehicle. []), arrived_ids = [],
      vehicle_results = [], parking_occupancy = (\<lambda>parking. occupancy),
      starting_vehicles = starting, ending_vehicles = []\<rparr>"

definition tracking_v1 :: monitor where
  "tracking_v1 = (car_monitor [] no_subscriptions)\<lparr>vehicles_db :=
     [(''v1'', \<lparr>vehicle_id = ''v1'', departure = 0, edge = ''e1'', stops = [],
        history = [[(''e1_0'', 50, ''P1'', 128, 60, 0)]], vClass = ''car'',
        passengers = [], arrived = None, final_stop_arrival = Some 0\<rparr>)]\<rparr>"

subsection \<open>What a step keeps\<close>

text \<open>
  Notions for the proofs about the step. \<open>kept f db db'\<close>: every facility of one
  registry is in the other, with the same value of \<open>f\<close>. The loops over the vehicles that
  end and that start a stop keep, for the state \<open>s0\<close> at their start, the capacities and
  the totals of every facility, and the occupancy by class of every facility that is not
  in \<open>_to_validate\<close>.
\<close>

definition kept :: "(parking \<Rightarrow> 'a) \<Rightarrow> (string \<times> parking) list \<Rightarrow> (string \<times> parking) list \<Rightarrow> bool" where
  "kept f db db' \<longleftrightarrow> (\<forall>pid. map_option f (map_of db' pid) = map_option f (map_of db pid))"

definition core :: "parking \<Rightarrow> (string \<times> int) list \<times> int \<times> (string \<times> string fset) list \<times> int" where
  "core p = (capacity_by_class p, total_capacity p, occupancy_by_class p, total_occupancy p)"

definition kept_occupancy :: "parking \<Rightarrow> (string \<times> int) list \<times> int \<times> (string \<times> string fset) list" where
  "kept_occupancy p = (capacity_by_class p, total_capacity p, occupancy_by_class p)"

definition totals :: "parking \<Rightarrow> (string \<times> int) list \<times> int \<times> int" where
  "totals p = (capacity_by_class p, total_capacity p, total_occupancy p)"

definition loop_inv :: "monitor \<Rightarrow> monitor \<times> string list \<Rightarrow> bool" where
  "loop_inv s0 st \<longleftrightarrow>
     (case st of (s, tv) \<Rightarrow>
        kept totals (parking_db s0) (parking_db s) \<and> vclasses s = vclasses s0
        \<and> (\<forall>pid. pid \<notin> set tv \<longrightarrow>
              map_option occupancy_by_class (map_of (parking_db s) pid)
              = map_option occupancy_by_class (map_of (parking_db s0) pid)))"

section \<open>Properties\<close>

text \<open>
  C8, as the code has it: \<open>get_parking\<close> never raises. For an unknown id it returns
  \<open>None\<close>, and for a registered id it returns the state of that facility.
\<close>

theorem get_parking_returns_entry_or_none:
  "get_parking self parking = Inr (map_of (parking_db self) parking)"
  by (simp add: get_parking_def map_of_eq_None_iff [symmetric] del: map_of_eq_None_iff)

text \<open>
  C8, as stated, fails: the lookup of an id that is absent from the registry does not
  fail with \<open>NotFound\<close>, it returns \<open>None\<close>.
\<close>

theorem get_parking_absent_counterexample:
  "get_parking \<lparr>vclasses = {''car''}, only_parkings = False, parking_db = [],
       routers_db = [], vehicles_db = [], passengers_db = {||},
       blacklisted_edges_pairs = [], static_parking_travel_time = [],
       traci_starting_stop_subscriptions = None,
       traci_ending_stop_subscriptions = None\<rparr> ''P1'' = Inr None
   \<and> get_parking \<lparr>vclasses = {''car''}, only_parkings = False, parking_db = [],
       routers_db = [], vehicles_db = [], passengers_db = {||},
       blacklisted_edges_pairs = [], static_parking_travel_time = [],
       traci_starting_stop_subscriptions = None,
       traci_ending_stop_subscriptions = None\<rparr> ''P1'' \<noteq> Inl NotFound"
  by (simp add: get_parking_def)

text \<open>
  C4: for a registered facility whose \<open>capacity_by_class\<close> is empty,
  \<open>get_free_places\<close> without uncertainty, without a class, without projections and
  without subscriptions returns \<open>total_capacity - total_occupancy\<close>.
\<close>

theorem get_free_places_no_flags_no_classes:
  assumes "map_of (parking_db self) parking = Some p"
    and "capacity_by_class p = []"
  shows "get_free_places self parking False sample None False False
           = Inr (Places (total_capacity p - total_occupancy p))"
  using assms by (simp add: get_free_places_def)

text \<open>The example of C4: a capacity of 10 and an occupancy of 3 leave 7 free places.\<close>

theorem get_free_places_no_flags_no_classes_witness:
  "get_free_places
     \<lparr>vclasses = {''car''}, only_parkings = False,
      parking_db = [(''P1'',
        \<lparr>sumo = \<lparr>sumo_id = ''P1'', lane = ''e1_0'', endPos = 50\<rparr>,
         total_capacity = 10, total_occupancy = 3, occupancy_series = [(3, 0)],
         occupancy_by_class = [(''car'', {||})],
         projections_by_class = [(''car'', {||})],
         capacity_by_class = [], subscriptions_by_class = [],
         subscription_sets = (\<lambda>ref. {||}),
         uncertainty = (0, 0), other_keys = []\<rparr>)],
      routers_db = [], vehicles_db = [], passengers_db = {||},
      blacklisted_edges_pairs = [], static_parking_travel_time = [],
      traci_starting_stop_subscriptions = None,
      traci_ending_stop_subscriptions = None\<rparr>
     ''P1'' False 0 None False False = Inr (Places 7)"
  using get_free_places_no_flags_no_classes
    [of "\<lparr>vclasses = {''car''}, only_parkings = False,
      parking_db = [(''P1'',
        \<lparr>sumo = \<lparr>sumo_id = ''P1'', lane = ''e1_0'', endPos = 50\<rparr>,
         total_capacity = 10, total_occupancy = 3, occupancy_series = [(3, 0)],
         occupancy_by_class = [(''car'', {||})],
         projections_by_class = [(''car'', {||})],
         capacity_by_class = [], subscriptions_by_class = [],
         subscription_sets = (\<lambda>ref. {||}),
         uncertainty = (0, 0), other_keys = []\<rparr>)],
      routers_db = [], vehicles_db = [], passengers_db = {||},
      blacklisted_edges_pairs = [], static_parking_travel_time = [],
      traci_starting_stop_subscriptions = None,
      traci_ending_stop_subscriptions = None\<rparr>" "''P1''"
      "\<lparr>sumo = \<lparr>sumo_id = ''P1'', lane = ''e1_0'', endPos = 50\<rparr>,
         total_capacity = 10, total_occupancy = 3, occupancy_series = [(3, 0)],
         occupancy_by_class = [(''car'', {||})],
         projections_by_class = [(''car'', {||})],
         capacity_by_class = [], subscriptions_by_class = [],
         subscription_sets = (\<lambda>ref. {||}),
         uncertainty = (0, 0), other_keys = []\<rparr>" 0]
  by simp

subsection \<open>Association lists\<close>

lemma map_fst_update_mem: "k \<in> set (map fst al) \<Longrightarrow> map fst (AList.update k v al) = map fst al"
  by (induction al) auto

lemma key_lookup: "k \<in> set (map fst al) \<Longrightarrow> (\<And>v. map_of al k = Some v \<Longrightarrow> thesis) \<Longrightarrow> thesis"
  by (cases "map_of al k") (auto simp: map_of_eq_None_iff)

lemma add_projections_ok:
  assumes "distinct (map fst prj)" "set (map fst prj) \<subseteq> set (map fst occ)"
  shows "\<exists>occ'. add_projections prj t occ
            = Inr (t + (\<Sum>(k, v)\<leftarrow>prj. int (fcard v)), occ')
          \<and> map fst occ' = map fst occ
          \<and> (\<forall>k. map_of occ' k = map_option (\<lambda>vs. vs |\<union>| lookup_set prj k) (map_of occ k))"
  using assms
proof (induction prj arbitrary: t occ)
  case Nil
  then show ?case by (simp add: lookup_set_def option.map_ident)
next
  case (Cons a prj)
  obtain key vehicles where a: "a = (key, vehicles)" by (cases a)
  from Cons.prems a have kin: "key \<in> set (map fst occ)" by simp
  then obtain vs where vs: "map_of occ key = Some vs"
    by (rule key_lookup)
  let ?occ1 = "AList.update key (vs |\<union>| vehicles) occ"
  have keys1: "map fst ?occ1 = map fst occ" using kin by (rule map_fst_update_mem)
  from Cons.prems a have d: "distinct (map fst prj)" and nk: "key \<notin> set (map fst prj)"
    and sub: "set (map fst prj) \<subseteq> set (map fst ?occ1)"
    by (simp_all add: keys1)
  from Cons.IH [OF d sub, of "t + int (fcard vehicles)"]
  obtain occ' where r: "add_projections prj (t + int (fcard vehicles)) ?occ1
            = Inr (t + int (fcard vehicles) + (\<Sum>(k, v)\<leftarrow>prj. int (fcard v)), occ')"
    and k: "map fst occ' = map fst ?occ1"
    and m: "\<forall>k. map_of occ' k = map_option (\<lambda>vs. vs |\<union>| lookup_set prj k) (map_of ?occ1 k)"
    by blast
  have nk': "map_of prj key = None" using nk by (simp add: map_of_eq_None_iff)
  have "\<forall>k. map_of occ' k = map_option (\<lambda>vs. vs |\<union>| lookup_set (a # prj) k) (map_of occ k)"
    using m vs nk' by (auto simp: a update_conv' lookup_set_def)
  with r k keys1 vs show ?case by (simp add: a add.assoc)
qed

lemma add_subscriptions_ok:
  assumes "distinct (map fst subs)" "set (map fst subs) \<subseteq> set (map fst occ)"
  shows "\<exists>sb' occ' ps'. add_subscriptions subs (sb, occ, ts, ps)
            = Inr (sb', occ', ts + (\<Sum>(k, num, veh)\<leftarrow>subs. num), ps')
          \<and> map fst occ' = map fst occ
          \<and> (\<forall>k. map_of occ' k
                 = map_option (\<lambda>vs. vs |\<union>| subscribed_vehicles subs k) (map_of occ k))
          \<and> (\<forall>k. map_of sb' k
                 = (case map_of subs k of None \<Rightarrow> map_of sb k
                    | Some (num, veh) \<Rightarrow> Some (num - int (fcard veh))))
          \<and> (sb' = [] \<longleftrightarrow> sb = [] \<and> subs = [])"
  using assms
proof (induction subs arbitrary: sb occ ts ps)
  case Nil
  then show ?case by (simp add: subscribed_vehicles_def option.map_ident)
next
  case (Cons a subs)
  obtain key num veh where a: "a = (key, num, veh)" by (cases a)
  from Cons.prems a have kin: "key \<in> set (map fst occ)" by simp
  then obtain vs where vs: "map_of occ key = Some vs"
    by (rule key_lookup)
  let ?occ1 = "AList.update key (vs |\<union>| veh) occ"
  let ?sb1 = "AList.update key (num - int (fcard veh)) sb"
  have keys1: "map fst ?occ1 = map fst occ" using kin by (rule map_fst_update_mem)
  from Cons.prems a have d: "distinct (map fst subs)" and nk: "key \<notin> set (map fst subs)"
    and sub: "set (map fst subs) \<subseteq> set (map fst ?occ1)"
    by (simp_all add: keys1)
  from Cons.IH [OF d sub, of ?sb1 "ts + num" "ps + (num - int (fcard veh))"]
  obtain sb' occ' ps' where r: "add_subscriptions subs (?sb1, ?occ1, ts + num, ps + (num - int (fcard veh)))
            = Inr (sb', occ', ts + num + (\<Sum>(k, num, veh)\<leftarrow>subs. num), ps')"
    and k: "map fst occ' = map fst ?occ1"
    and m: "\<forall>k. map_of occ' k = map_option (\<lambda>vs. vs |\<union>| subscribed_vehicles subs k) (map_of ?occ1 k)"
    and s: "\<forall>k. map_of sb' k
                 = (case map_of subs k of None \<Rightarrow> map_of ?sb1 k
                    | Some (num, veh) \<Rightarrow> Some (num - int (fcard veh)))"
    and e: "sb' = [] \<longleftrightarrow> ?sb1 = [] \<and> subs = []"
    by blast
  have nk': "map_of subs key = None" using nk by (simp add: map_of_eq_None_iff)
  have m': "\<forall>k. map_of occ' k = map_option (\<lambda>vs. vs |\<union>| subscribed_vehicles (a # subs) k) (map_of occ k)"
    using m vs nk' by (auto simp: a update_conv' subscribed_vehicles_def)
  have s': "\<forall>k. map_of sb' k
                 = (case map_of (a # subs) k of None \<Rightarrow> map_of sb k
                    | Some (num, veh) \<Rightarrow> Some (num - int (fcard veh)))"
    using s nk' by (auto simp: a update_conv' split: option.splits)
  have ne: "?sb1 \<noteq> []" by (cases sb) auto
  from r k keys1 vs m' s' e ne show ?case by (simp add: a add.assoc)
qed

lemma subtract_occupancy_ok:
  assumes "distinct (map fst occ)" "set (map fst occ) \<subseteq> set (map fst cc)"
    and "ws \<and> sb \<noteq> [] \<longrightarrow> set (map fst occ) \<subseteq> set (map fst sb)"
  shows "\<exists>cc'. subtract_occupancy err ws sb occ cc = Inr cc'
          \<and> map fst cc' = map fst cc
          \<and> (\<forall>k. map_of cc' k
                 = (case map_of occ k of None \<Rightarrow> map_of cc k
                    | Some vs \<Rightarrow>
                        map_option (\<lambda>c. c + err - int (fcard vs)
                           - (if ws \<and> sb \<noteq> [] then the (map_of sb k) else 0)) (map_of cc k)))"
  using assms
proof (induction occ arbitrary: cc)
  case Nil
  then show ?case by simp
next
  case (Cons a occ)
  obtain key vehicles where a: "a = (key, vehicles)" by (cases a)
  from Cons.prems a have kin: "key \<in> set (map fst cc)" by simp
  then obtain c where c: "map_of cc key = Some c"
    by (rule key_lookup)
  define s where "s = (if ws \<and> sb \<noteq> [] then the (map_of sb key) else 0)"
  let ?cc1 = "AList.update key (c + err - int (fcard vehicles) - s) cc"
  have keys1: "map fst ?cc1 = map fst cc" using kin by (rule map_fst_update_mem)
  from Cons.prems a have d: "distinct (map fst occ)" and nk: "key \<notin> set (map fst occ)"
    and sub: "set (map fst occ) \<subseteq> set (map fst ?cc1)"
    and sbk: "ws \<and> sb \<noteq> [] \<longrightarrow> set (map fst occ) \<subseteq> set (map fst sb)"
    by (simp_all add: keys1)
  have step: "subtract_occupancy err ws sb (a # occ) cc = subtract_occupancy err ws sb occ ?cc1"
  proof (cases "ws \<and> sb \<noteq> []")
    case True
    with Cons.prems a have "key \<in> set (map fst sb)" by simp
    then obtain s' where "map_of sb key = Some s'" by (rule key_lookup)
    with True c show ?thesis by (simp add: a s_def)
  next
    case False
    with c show ?thesis by (auto simp add: a s_def)
  qed
  from Cons.IH [OF d sub sbk]
  obtain cc' where r: "subtract_occupancy err ws sb occ ?cc1 = Inr cc'"
    and k: "map fst cc' = map fst ?cc1"
    and m: "\<forall>k. map_of cc' k
                 = (case map_of occ k of None \<Rightarrow> map_of ?cc1 k
                    | Some vs \<Rightarrow>
                        map_option (\<lambda>c. c + err - int (fcard vs)
                           - (if ws \<and> sb \<noteq> [] then the (map_of sb k) else 0)) (map_of ?cc1 k))"
    by blast
  have nk': "map_of occ key = None" using nk by (simp add: map_of_eq_None_iff)
  have "\<forall>k. map_of cc' k
                 = (case map_of (a # occ) k of None \<Rightarrow> map_of cc k
                    | Some vs \<Rightarrow>
                        map_option (\<lambda>c. c + err - int (fcard vs)
                           - (if ws \<and> sb \<noteq> [] then the (map_of sb k) else 0)) (map_of cc k))"
    using m c nk' by (auto simp: a update_conv' s_def split: option.splits)
  with step r k keys1 show ?case by simp
qed

lemma alist_eqI:
  "map fst xs = map fst ys \<Longrightarrow> distinct (map fst xs) \<Longrightarrow> (\<forall>k. map_of xs k = map_of ys k) \<Longrightarrow> xs = ys"
proof (induction xs arbitrary: ys)
  case Nil
  then show ?case by simp
next
  case (Cons x xs)
  then obtain y ys' where ys: "ys = y # ys'" by (cases ys) auto
  with Cons.prems have f: "fst x = fst y" and ks: "map fst xs = map fst ys'"
    and d: "distinct (map fst xs)" and nx: "fst x \<notin> set (map fst xs)" by auto
  from Cons.prems(3) ys f have "snd x = snd y"
    by (cases x; cases y) (auto dest: spec [of _ "fst x"])
  with f have xy: "x = y" by (simp add: prod_eq_iff)
  have "\<forall>k. map_of xs k = map_of ys' k"
  proof
    fix k
    show "map_of xs k = map_of ys' k"
    proof (cases "k = fst x")
      case True
      with nx ks show ?thesis by (metis map_of_eq_None_iff set_map)
    next
      case False
      with Cons.prems(3) ys xy show ?thesis
        by (cases x) (auto dest: spec [of _ k])
    qed
  qed
  with Cons.IH [OF ks d] xy ys show ?case by simp
qed

lemma map_of_map_values:
  "map_of (map (\<lambda>(k, v). (k, f k v)) xs) k = map_option (f k) (map_of xs k)"
  by (induction xs) auto

lemma map_fst_map_values: "map fst (map (\<lambda>(k, v). (k, f k v)) xs) = map fst xs"
  by (induction xs) auto

subsection \<open>Free places by class\<close>

text \<open>
  C5, as stated, fails. A facility for cars and trucks has no capacities by class; setting
  the capacities \<open>car: 10\<close> raises (a class is missing) and leaves them in place, and
  \<open>get_free_places\<close> then raises \<open>KeyError\<close> for the class \<open>truck\<close> of the occupancy,
  with or without a requested class. A class that has a capacity and no occupancy (here
  \<open>bike\<close>) does not receive the draw. And with subscriptions for the cars only, the query
  that includes the subscriptions raises \<open>KeyError\<close> for the trucks.
\<close>

theorem free_places_key_error_counterexample:
  "fst (set_parking_capacity_vclass (car_truck_monitor []) ''P1'' [(''car'', 10)])
     = Inl InvariantViolation
   \<and> snd (set_parking_capacity_vclass (car_truck_monitor []) ''P1'' [(''car'', 10)])
     = car_truck_monitor [(''car'', 10)]
   \<and> get_free_places (car_truck_monitor [(''car'', 10)]) ''P1'' False 0 None False False
     = Inl KeyError
   \<and> get_free_places (car_truck_monitor [(''car'', 10)]) ''P1'' False 0 (Some ''car'')
        False False
     = Inl KeyError
   \<and> get_free_places (car_monitor [(''car'', 10), (''bike'', 0)] no_subscriptions) ''P1''
        True 1 None False False
     = Inr (PlacesByClass [(''car'', 11), (''bike'', 0)])
   \<and> get_free_places
        (car_truck_subscribed (single_class ''car'' 1 {||})) ''P1'' False 0 None False True
     = Inl KeyError"
  by (simp add: set_parking_capacity_vclass_def validate_parking_capacity_def
      get_free_places_def car_truck_monitor_def car_truck_park_def new_monitor_def
      car_monitor_def car_park_def no_subscriptions_def car_truck_subscribed_def
      single_class_def subscription_items_def init_parking_def Let_def fcard_fempty)

text \<open>
  C5, as the code has it: for a registered facility whose \<open>capacity_by_class\<close> is not
  empty and has the classes of \<open>occupancy_by_class\<close> (with the classes of the projections
  among them when projections are included, and with no subscriptions or subscriptions for
  exactly these classes when subscriptions are included), \<open>get_free_places\<close> computes for
  every class the capacity of the class, plus the draw, minus the size of the working
  occupancy of the class, minus the reserved places without a vehicle when subscriptions
  are included. It returns the value of the requested class when that class has a
  capacity, and the dictionary of all classes otherwise. (The keys of a dictionary are
  distinct.)
\<close>

theorem get_free_places_by_class:
  assumes reg: "map_of (parking_db self) parking = Some p"
    and ne: "capacity_by_class p \<noteq> []"
    and dc: "distinct (map fst (capacity_by_class p))"
    and kc: "set (map fst (capacity_by_class p)) = set (map fst (occupancy_by_class p))"
    and do: "distinct (map fst (occupancy_by_class p))"
    and pr: "with_projections \<longrightarrow>
               distinct (map fst (projections_by_class p))
               \<and> set (map fst (projections_by_class p))
                    \<subseteq> set (map fst (occupancy_by_class p))"
    and sb: "with_subscriptions \<longrightarrow>
               distinct (map fst (subscriptions_by_class p))
               \<and> (subscriptions_by_class p = []
                    \<or> set (map fst (subscriptions_by_class p))
                        = set (map fst (occupancy_by_class p)))"
  shows "get_free_places self parking with_uncertainty sample vclass with_projections
           with_subscriptions =
         (let err = (if with_uncertainty then sample else 0);
              by_class = map (\<lambda>(c, n).
                 (c, spec_free_places_of_class p err with_projections with_subscriptions c n))
                 (capacity_by_class p)
          in case vclass of
               None \<Rightarrow> Inr (PlacesByClass by_class)
             | Some c \<Rightarrow>
                 (case map_of (capacity_by_class p) c of
                    Some n \<Rightarrow> Inr (Places
                      (spec_free_places_of_class p err with_projections with_subscriptions c n))
                  | None \<Rightarrow> Inr (PlacesByClass by_class)))"
proof -
  let ?occ = "occupancy_by_class p" and ?prj = "projections_by_class p"
  let ?subs = "subscription_items p" and ?cap = "capacity_by_class p"
  let ?wp = with_projections and ?ws = with_subscriptions
  have keys: "map fst ?subs = map fst (subscriptions_by_class p)"
    by (simp add: subscription_items_def case_prod_beta comp_def)
  have empty: "?subs = [] \<longleftrightarrow> subscriptions_by_class p = []"
    by (simp add: subscription_items_def)
  from sb have ds: "?ws \<longrightarrow> distinct (map fst ?subs)"
    and ks: "?ws \<longrightarrow> ?subs = [] \<or> set (map fst ?subs) = set (map fst ?occ)"
    by (simp_all add: keys empty)
  define err where "err = (if with_uncertainty then sample else 0)"
  define by_class where "by_class = map (\<lambda>(c, n).
                 (c, spec_free_places_of_class p err ?wp ?ws c n)) ?cap"
  have "\<exists>tp occ1. (if ?wp then add_projections ?prj 0 ?occ else Inr (0, ?occ)) = Inr (tp, occ1)
      \<and> map fst occ1 = map fst ?occ
      \<and> (\<forall>k. map_of occ1 k = map_option (\<lambda>vs. vs |\<union>| (if ?wp then lookup_set ?prj k else {||}))
                 (map_of ?occ k))"
  proof (cases ?wp)
    case True
    with pr have dp: "distinct (map fst ?prj)"
      and kp: "set (map fst ?prj) \<subseteq> set (map fst ?occ)" by simp_all
    from add_projections_ok [OF dp kp, of 0] True show ?thesis by auto
  next
    case False
    then show ?thesis by (simp add: option.map_ident)
  qed
  then obtain tp occ1 where
    r1: "(if ?wp then add_projections ?prj 0 ?occ else Inr (0, ?occ)) = Inr (tp, occ1)"
    and k1: "map fst occ1 = map fst ?occ"
    and m1: "\<forall>k. map_of occ1 k = map_option (\<lambda>vs. vs |\<union>| (if ?wp then lookup_set ?prj k else {||}))
                 (map_of ?occ k)"
    by blast
  have "\<exists>sb occ2 ts ps. (if ?ws then add_subscriptions ?subs ([], occ1, 0, 0)
                         else Inr ([], occ1, 0, 0)) = Inr (sb, occ2, ts, ps)
      \<and> map fst occ2 = map fst occ1
      \<and> (\<forall>k. map_of occ2 k
            = map_option (\<lambda>vs. vs |\<union>| (if ?ws then subscribed_vehicles ?subs k else {||}))
                 (map_of occ1 k))
      \<and> (?ws \<longrightarrow> (\<forall>k. map_of sb k = (case map_of ?subs k of None \<Rightarrow> None
                    | Some (num, veh) \<Rightarrow> Some (num - int (fcard veh)))))
      \<and> (?ws \<longrightarrow> (sb = [] \<longleftrightarrow> ?subs = []))"
  proof (cases ?ws)
    case True
    with ds have ds': "distinct (map fst ?subs)" by simp
    have "set (map fst ?subs) \<subseteq> set (map fst occ1)" using ks k1 True by auto
    from add_subscriptions_ok [OF ds' this, of "[]" 0 0]
    obtain sb' occ' ps' where
      a: "add_subscriptions ?subs ([], occ1, 0, 0)
            = Inr (sb', occ', 0 + (\<Sum>(k, num, veh)\<leftarrow>?subs. num), ps')"
      and b: "map fst occ' = map fst occ1"
      and c: "\<forall>k. map_of occ' k
                 = map_option (\<lambda>vs. vs |\<union>| subscribed_vehicles ?subs k) (map_of occ1 k)"
      and d: "\<forall>k. map_of sb' k
                 = (case map_of ?subs k of None \<Rightarrow> map_of [] k
                    | Some (num, veh) \<Rightarrow> Some (num - int (fcard veh)))"
      and e: "sb' = [] \<longleftrightarrow> [] = ([] :: (string \<times> int) list) \<and> ?subs = []"
      by blast
    have d': "\<forall>k. map_of sb' k
                 = (case map_of ?subs k of None \<Rightarrow> None
                    | Some (num, veh) \<Rightarrow> Some (num - int (fcard veh)))"
    proof
      fix k
      from d have "map_of sb' k = (case map_of ?subs k of None \<Rightarrow> map_of [] k
                    | Some (num, veh) \<Rightarrow> Some (num - int (fcard veh)))" ..
      then show "map_of sb' k = (case map_of ?subs k of None \<Rightarrow> None
                    | Some (num, veh) \<Rightarrow> Some (num - int (fcard veh)))"
        by (cases "map_of ?subs k") simp_all
    qed
    from e have e': "sb' = [] \<longleftrightarrow> ?subs = []" by simp
    show ?thesis
    proof (intro exI conjI)
      show "(if ?ws then add_subscriptions ?subs ([], occ1, 0, 0)
             else Inr ([], occ1, 0, 0))
            = Inr (sb', occ', 0 + (\<Sum>(k, num, veh)\<leftarrow>?subs. num), ps')"
        using True a by simp
      show "map fst occ' = map fst occ1" by (rule b)
      show "\<forall>k. map_of occ' k
            = map_option (\<lambda>vs. vs |\<union>| (if ?ws then subscribed_vehicles ?subs k else {||}))
                 (map_of occ1 k)"
        using True c by simp
      show "?ws \<longrightarrow> (\<forall>k. map_of sb' k = (case map_of ?subs k of None \<Rightarrow> None
                    | Some (num, veh) \<Rightarrow> Some (num - int (fcard veh))))"
        by (rule impI) (rule d')
      show "?ws \<longrightarrow> (sb' = [] \<longleftrightarrow> ?subs = [])"
        by (rule impI) (rule e')
    qed
  next
    case False
    then show ?thesis by (simp add: option.map_ident)
  qed
  then obtain sb occ2 ts ps where
    r2: "(if ?ws then add_subscriptions ?subs ([], occ1, 0, 0)
                         else Inr ([], occ1, 0, 0)) = Inr (sb, occ2, ts, ps)"
    and k2: "map fst occ2 = map fst occ1"
    and m2: "\<forall>k. map_of occ2 k
            = map_option (\<lambda>vs. vs |\<union>| (if ?ws then subscribed_vehicles ?subs k else {||}))
                 (map_of occ1 k)"
    and s2: "?ws \<longrightarrow> (\<forall>k. map_of sb k = (case map_of ?subs k of None \<Rightarrow> None
                    | Some (num, veh) \<Rightarrow> Some (num - int (fcard veh))))"
    and e2: "?ws \<longrightarrow> (sb = [] \<longleftrightarrow> ?subs = [])"
    by blast
  have d2: "distinct (map fst occ2)" using do k1 k2 by simp
  have sub2: "set (map fst occ2) \<subseteq> set (map fst ?cap)" using kc k1 k2 by simp
  have sbk: "?ws \<and> sb \<noteq> [] \<longrightarrow> set (map fst occ2) \<subseteq> set (map fst sb)"
  proof
    assume a: "?ws \<and> sb \<noteq> []"
    with e2 ks have kk: "set (map fst ?subs) = set (map fst ?occ)" by auto
    show "set (map fst occ2) \<subseteq> set (map fst sb)"
    proof
      fix k assume "k \<in> set (map fst occ2)"
      with k1 k2 kk have "k \<in> set (map fst ?subs)" by simp
      then obtain v where "map_of ?subs k = Some v" by (rule key_lookup)
      with s2 a have "map_of sb k \<noteq> None" by (cases v) auto
      then show "k \<in> set (map fst sb)" by (simp add: map_of_eq_None_iff)
    qed
  qed
  from subtract_occupancy_ok [OF d2 sub2 sbk, of err]
  obtain cc where r3: "subtract_occupancy err ?ws sb occ2 ?cap = Inr cc"
    and k3: "map fst cc = map fst ?cap"
    and m3: "\<forall>k. map_of cc k
                 = (case map_of occ2 k of None \<Rightarrow> map_of ?cap k
                    | Some vs \<Rightarrow>
                        map_option (\<lambda>c. c + err - int (fcard vs)
                           - (if ?ws \<and> sb \<noteq> [] then the (map_of sb k) else 0)) (map_of ?cap k))"
    by blast
  have "\<forall>k. map_of cc k = map_of by_class k"
  proof
    fix k
    show "map_of cc k = map_of by_class k"
    proof (cases "map_of ?cap k")
      case None
      with m3 show ?thesis
        by (simp add: by_class_def map_of_map_values split: option.splits)
    next
      case (Some n)
      then have "k \<in> set (map fst ?occ)" using kc
        by (metis map_of_eq_None_iff option.distinct(1) set_map)
      then obtain vs where vs: "map_of ?occ k = Some vs" by (rule key_lookup)
      have v2: "map_of occ2 k = Some (spec_occupancy_view p ?wp ?ws k)"
        using m2 m1 vs by (simp add: spec_occupancy_view_def lookup_set_def)
      have u: "(if ?ws \<and> sb \<noteq> [] then the (map_of sb k) else 0)
                 = (if ?ws then unfilled_slots ?subs k else 0)"
      proof (cases "?ws")
        case False
        then show ?thesis by simp
      next
        case ws: True
        show ?thesis
        proof (cases "sb = []")
          case True
          with e2 ws have "?subs = []" by simp
          with True ws show ?thesis by (simp add: unfilled_slots_def)
        next
          case False
          with e2 ws ks have kk: "set (map fst ?subs) = set (map fst ?occ)" by auto
          with \<open>k \<in> set (map fst ?occ)\<close> have "k \<in> set (map fst ?subs)" by simp
          then obtain v where v: "map_of ?subs k = Some v"
            by (rule key_lookup)
          with s2 ws False show ?thesis by (cases v) (simp add: unfilled_slots_def)
        qed
      qed
      from m3 v2 Some u show ?thesis
        by (simp add: by_class_def map_of_map_values spec_free_places_of_class_def)
    qed
  qed
  then have mm: "\<forall>k. map_of cc k = map_of by_class k" .
  have kb: "map fst by_class = map fst ?cap"
    unfolding by_class_def by (rule map_fst_map_values)
  have cc: "cc = by_class"
  proof (rule alist_eqI)
    show "map fst cc = map fst by_class" using k3 kb by simp
    show "distinct (map fst cc)" using k3 dc by simp
    show "\<forall>k. map_of cc k = map_of by_class k" by (rule mm)
  qed
  have mb: "\<And>c. map_of by_class c
     = map_option (spec_free_places_of_class p err ?wp ?ws c) (map_of ?cap c)"
    by (simp add: by_class_def map_of_map_values)
  show ?thesis
    using reg ne r1 r2 r3
    by (simp add: get_free_places_def Let_def cc mb err_def [symmetric] by_class_def [symmetric]
        split: option.splits)
qed

text \<open>
  The example of C5: capacities of 8 cars and 2 trucks, the cars \<open>v1\<close> and \<open>v2\<close>
  inside and no truck; the query for the class \<open>car\<close> without extras returns 6. And the
  query for all classes with a draw of 1, with the projections and with the subscriptions:
  8 + 1 - 3 - 1 = 5 for the cars, 2 + 1 - 0 - 1 = 2 for the trucks.
\<close>

theorem get_free_places_by_class_witness:
  "get_free_places (new_monitor {''car'', ''truck''} False [(''P1'', busy_park)])
     ''P1'' False 0 (Some ''car'') False False = Inr (Places 6)
   \<and> get_free_places (new_monitor {''car'', ''truck''} False [(''P1'', busy_park)])
     ''P1'' True 1 None True True = Inr (PlacesByClass [(''car'', 5), (''truck'', 2)])"
proof -
  let ?m = "new_monitor {''car'', ''truck''} False [(''P1'', busy_park)]"
  have reg: "map_of (parking_db ?m) ''P1'' = Some busy_park"
    by (simp add: new_monitor_def)
  have f: "capacity_by_class busy_park = [(''car'', 8), (''truck'', 2)]"
    "occupancy_by_class busy_park = [(''car'', {|''v1'', ''v2''|}), (''truck'', {||})]"
    "projections_by_class busy_park = [(''car'', {|''v3''|}), (''truck'', {||})]"
    "subscriptions_by_class busy_park = [(''car'', (2, 0)), (''truck'', (1, 1))]"
    "subscription_items busy_park = [(''car'', (2, {|''v1''|})), (''truck'', (1, {||}))]"
    by (simp_all add: busy_park_def car_truck_park_def init_parking_def
        subscription_items_def)
  have a: "get_free_places ?m ''P1'' False 0 (Some ''car'') False False = Inr (Places 6)"
    using get_free_places_by_class [OF reg, of False False False 0 "Some ''car''"]
    by (simp add: f spec_free_places_of_class_def spec_occupancy_view_def lookup_set_def
        fcard_finsert_if)
  have b: "get_free_places ?m ''P1'' True 1 None True True
             = Inr (PlacesByClass [(''car'', 5), (''truck'', 2)])"
    using get_free_places_by_class [OF reg, of True True True 1 None]
    by (simp add: f spec_free_places_of_class_def spec_occupancy_view_def lookup_set_def
        subscribed_vehicles_def unfilled_slots_def fcard_finsert_if)
  from a b show ?thesis by simp
qed

subsection \<open>Subscribing a vehicle\<close>

lemma map_of_resolved:
  "map_of (map (\<lambda>(key, (num, ref)). (key, (num, f ref))) xs) c
     = map_option (\<lambda>(num, ref). (num, f ref)) (map_of xs c)"
  by (induction xs) auto

lemma subscription_items_lookup:
  "map_of (subscription_items p) c
     = map_option (\<lambda>(num, ref). (num, subscription_sets p ref))
         (map_of (subscriptions_by_class p) c)"
  unfolding subscription_items_def by (rule map_of_resolved)

text \<open>
  C6: for a registered facility, \<open>subscribe_vehicle_to_parking\<close> raises the exception
  of a class that is not initialised when the class has no entry in
  \<open>subscriptions_by_class\<close>. For a class with an entry it returns \<open>False\<close> and leaves the
  object as it is when the vehicle is already in the set of the class or when the set holds
  (at least) as many vehicles as places are reserved; otherwise it returns \<open>True\<close>, and the
  entry of the class then has the vehicle added to its set, with the same number of
  reserved places.
\<close>

theorem subscribe_vehicle_acknowledgement:
  assumes reg: "map_of (parking_db self) parking = Some p"
  shows "(map_of (subscriptions_by_class p) vclass = None \<longrightarrow>
            subscribe_vehicle_to_parking self parking vclass vehicle = (Inl NotConfigured, self))
       \<and> (\<forall>reserved vehicles.
            subscription_entry self parking vclass = Some (reserved, vehicles) \<longrightarrow>
              (vehicle |\<in>| vehicles \<or> reserved \<le> int (fcard vehicles) \<longrightarrow>
                 subscribe_vehicle_to_parking self parking vclass vehicle = (Inr False, self))
            \<and> (vehicle |\<notin>| vehicles \<and> int (fcard vehicles) < reserved \<longrightarrow>
                 fst (subscribe_vehicle_to_parking self parking vclass vehicle) = Inr True
               \<and> subscription_entry
                    (snd (subscribe_vehicle_to_parking self parking vclass vehicle))
                    parking vclass
                  = Some (reserved, finsert vehicle vehicles)))"
proof (intro conjI impI allI)
  assume "map_of (subscriptions_by_class p) vclass = None"
  with reg show "subscribe_vehicle_to_parking self parking vclass vehicle
                   = (Inl NotConfigured, self)"
    by (simp add: subscribe_vehicle_to_parking_def)
next
  fix reserved vehicles
  assume e: "subscription_entry self parking vclass = Some (reserved, vehicles)"
  with reg obtain ref where
    c: "map_of (subscriptions_by_class p) vclass = Some (reserved, ref)"
    and v: "subscription_sets p ref = vehicles"
    by (auto simp: subscription_entry_def subscription_items_lookup)
  {
    assume "vehicle |\<in>| vehicles \<or> reserved \<le> int (fcard vehicles)"
    with reg c v show "subscribe_vehicle_to_parking self parking vclass vehicle
                         = (Inr False, self)"
      by (auto simp: subscribe_vehicle_to_parking_def Let_def)
  }
  {
    assume a: "vehicle |\<notin>| vehicles \<and> int (fcard vehicles) < reserved"
    with reg c v show "fst (subscribe_vehicle_to_parking self parking vclass vehicle)
                         = Inr True"
      by (simp add: subscribe_vehicle_to_parking_def Let_def)
    from a reg c v show "subscription_entry
                    (snd (subscribe_vehicle_to_parking self parking vclass vehicle))
                    parking vclass
                  = Some (reserved, finsert vehicle vehicles)"
      by (simp add: subscribe_vehicle_to_parking_def Let_def subscription_entry_def
          update_conv' subscription_items_lookup)
  }
qed

text \<open>
  The four cases of C6 on a facility with one reserved place for cars, held by \<open>v1\<close>: a
  class without entry, a vehicle that is already subscribed, a full set, and (with two
  reserved places) a vehicle that is added.
\<close>

theorem subscribe_vehicle_acknowledgement_witness:
  "subscribe_vehicle_to_parking
       (car_monitor [(''car'', 10)] (single_class ''car'' 1 {|''v1''|})) ''P1'' ''truck'' ''v2''
     = (Inl NotConfigured, car_monitor [(''car'', 10)] (single_class ''car'' 1 {|''v1''|}))
   \<and> subscribe_vehicle_to_parking
       (car_monitor [(''car'', 10)] (single_class ''car'' 1 {|''v1''|})) ''P1'' ''car'' ''v1''
     = (Inr False, car_monitor [(''car'', 10)] (single_class ''car'' 1 {|''v1''|}))
   \<and> subscribe_vehicle_to_parking
       (car_monitor [(''car'', 10)] (single_class ''car'' 1 {|''v1''|})) ''P1'' ''car'' ''v2''
     = (Inr False, car_monitor [(''car'', 10)] (single_class ''car'' 1 {|''v1''|}))
   \<and> fst (subscribe_vehicle_to_parking
            (car_monitor [(''car'', 10)] (single_class ''car'' 2 {|''v1''|}))
            ''P1'' ''car'' ''v2'')
     = Inr True
   \<and> subscription_entry
        (snd (subscribe_vehicle_to_parking
                (car_monitor [(''car'', 10)] (single_class ''car'' 2 {|''v1''|}))
                ''P1'' ''car'' ''v2'')) ''P1'' ''car''
     = Some (2, {|''v2'', ''v1''|})"
proof -
  let ?m1 = "car_monitor [(''car'', 10)] (single_class ''car'' 1 {|''v1''|})"
  let ?p1 = "car_park [(''car'', 10)] (single_class ''car'' 1 {|''v1''|})"
  let ?m2 = "car_monitor [(''car'', 10)] (single_class ''car'' 2 {|''v1''|})"
  let ?p2 = "car_park [(''car'', 10)] (single_class ''car'' 2 {|''v1''|})"
  have r1: "map_of (parking_db ?m1) ''P1'' = Some ?p1"
    by (simp add: car_monitor_def new_monitor_def)
  have r2: "map_of (parking_db ?m2) ''P1'' = Some ?p2"
    by (simp add: car_monitor_def new_monitor_def)
  have s1: "subscriptions_by_class ?p1 = [(''car'', (1, 0))]"
    by (simp add: car_park_def single_class_def)
  have e1: "subscription_entry ?m1 ''P1'' ''car'' = Some (1, {|''v1''|})"
    by (simp add: subscription_entry_def r1)
      (simp add: subscription_items_def car_park_def single_class_def)
  have e2: "subscription_entry ?m2 ''P1'' ''car'' = Some (2, {|''v1''|})"
    by (simp add: subscription_entry_def r2)
      (simp add: subscription_items_def car_park_def single_class_def)
  from subscribe_vehicle_acknowledgement [OF r1, of "''truck''" "''v2''"]
  have a: "subscribe_vehicle_to_parking ?m1 ''P1'' ''truck'' ''v2'' = (Inl NotConfigured, ?m1)"
    by (simp add: s1)
  from subscribe_vehicle_acknowledgement [OF r1, of "''car''" "''v1''"]
  have b: "subscribe_vehicle_to_parking ?m1 ''P1'' ''car'' ''v1'' = (Inr False, ?m1)"
    by (simp add: e1)
  from subscribe_vehicle_acknowledgement [OF r1, of "''car''" "''v2''"]
  have c: "subscribe_vehicle_to_parking ?m1 ''P1'' ''car'' ''v2'' = (Inr False, ?m1)"
    by (simp add: e1 fcard_finsert_if)
  from subscribe_vehicle_acknowledgement [OF r2, of "''car''" "''v2''"]
  have d: "fst (subscribe_vehicle_to_parking ?m2 ''P1'' ''car'' ''v2'') = Inr True
     \<and> subscription_entry
        (snd (subscribe_vehicle_to_parking ?m2 ''P1'' ''car'' ''v2'')) ''P1'' ''car''
     = Some (2, {|''v2'', ''v1''|})"
    by (simp add: e2 fcard_finsert_if)
  from a b c d show ?thesis by simp
qed

text \<open>
  C10, as stated, fails. The subscriptions \<open>{'car': (2, s), 'truck': (2, s)}\<close> with one
  set \<open>s\<close> for both classes pass the validation of \<open>set_parking_subscriptions\<close>, and the
  deep copy keeps the set shared; subscribing \<open>v1\<close> for the cars then puts \<open>v1\<close> into
  the set of the trucks as well.
\<close>

theorem shared_set_counterexample:
  "set_parking_subscriptions (car_truck_monitor [(''car'', 5), (''truck'', 5)]) ''P1''
       shared_set
     = (Inr (), car_truck_subscribed shared_set)
   \<and> subscription_entry (car_truck_subscribed shared_set) ''P1'' ''truck'' = Some (2, {||})
   \<and> fst (subscribe_vehicle_to_parking (car_truck_subscribed shared_set)
            ''P1'' ''car'' ''v1'') = Inr True
   \<and> subscription_entry
        (snd (subscribe_vehicle_to_parking (car_truck_subscribed shared_set)
                ''P1'' ''car'' ''v1'')) ''P1'' ''truck''
     = Some (2, {|''v1''|})"
  by (simp add: set_parking_subscriptions_def validate_parking_subscriptions_def
      subscribe_vehicle_to_parking_def subscription_entry_def subscription_items_def
      car_truck_monitor_def car_truck_subscribed_def car_truck_park_def shared_set_def
      new_monitor_def init_parking_def Let_def fcard_fempty)

text \<open>
  C10, as the code has it: for a registered facility and a class with an entry in
  \<open>subscriptions_by_class\<close>, \<open>subscribe_vehicle_to_parking\<close> and
  \<open>remove_subscribed_vehicle\<close> change at most the one set object of that class at that
  facility, whatever they return: every other attribute of the object, the ids and the
  entries of the other facilities, every other field of the facility (its dictionary of
  subscriptions with the reserved places of every class among them) and every other set
  object stay as they are. So every class keeps its number of reserved places, and every
  class whose set object is not the one of that class keeps its vehicles.
\<close>

theorem subscription_frame:
  assumes reg: "map_of (parking_db self) parking = Some p"
    and conf: "map_of (subscriptions_by_class p) vclass = Some (reserved, ref)"
    and r: "r = subscribe_vehicle_to_parking self parking vclass vehicle
            \<or> r = remove_subscribed_vehicle self parking vclass vehicle"
  shows "(snd r)\<lparr>parking_db := parking_db self\<rparr> = self
       \<and> map fst (parking_db (snd r)) = map fst (parking_db self)
       \<and> (\<forall>q. q \<noteq> parking \<longrightarrow> map_of (parking_db (snd r)) q = map_of (parking_db self) q)
       \<and> (\<exists>p'. map_of (parking_db (snd r)) parking = Some p'
              \<and> p'\<lparr>subscription_sets := subscription_sets p\<rparr> = p
              \<and> (\<forall>a. a \<noteq> ref \<longrightarrow> subscription_sets p' a = subscription_sets p a))
       \<and> (\<forall>c num a. map_of (subscriptions_by_class p) c = Some (num, a) \<longrightarrow>
              (\<exists>vehicles'. subscription_entry (snd r) parking c = Some (num, vehicles'))
            \<and> (a \<noteq> ref \<longrightarrow>
                 subscription_entry (snd r) parking c = subscription_entry self parking c))"
proof -
  have kp: "parking \<in> set (map fst (parking_db self))"
    using reg by (metis map_of_eq_None_iff option.distinct(1) set_map)
  have same: "snd r = self \<Longrightarrow> ?thesis"
    using reg by (auto simp: subscription_entry_def subscription_items_lookup)
  have upd: "?thesis"
    if "snd r = self\<lparr>parking_db := AList.update parking
                    (p\<lparr>subscription_sets := (subscription_sets p)(ref := vs)\<rparr>)
                    (parking_db self)\<rparr>" for vs
    using that kp reg
    by (auto simp: update_conv' map_fst_update_mem subscription_entry_def
        subscription_items_lookup)
  from r show ?thesis
  proof
    assume "r = subscribe_vehicle_to_parking self parking vclass vehicle"
    then have "snd r = self \<or> snd r = self\<lparr>parking_db := AList.update parking
                    (p\<lparr>subscription_sets := (subscription_sets p)
                         (ref := finsert vehicle (subscription_sets p ref))\<rparr>)
                    (parking_db self)\<rparr>"
      using reg conf by (simp add: subscribe_vehicle_to_parking_def Let_def)
    with same upd show ?thesis by blast
  next
    assume "r = remove_subscribed_vehicle self parking vclass vehicle"
    then have "snd r = self \<or> snd r = self\<lparr>parking_db := AList.update parking
                    (p\<lparr>subscription_sets := (subscription_sets p)
                         (ref := subscription_sets p ref |-| {|vehicle|})\<rparr>)
                    (parking_db self)\<rparr>"
      using reg conf by (simp add: remove_subscribed_vehicle_def Let_def)
    with same upd show ?thesis by blast
  qed
qed

text \<open>C10 on the facility in which each class has its own set object: subscribing
  \<open>v2\<close> for the cars and removing \<open>v1\<close> from the cars leave the entry of the trucks
  as it is, and the cars keep their two reserved places.\<close>

theorem subscription_frame_witness:
  "subscription_entry
     (snd (subscribe_vehicle_to_parking (car_truck_subscribed own_sets) ''P1'' ''car'' ''v2''))
     ''P1'' ''truck''
     = Some (2, {||})
   \<and> (\<exists>vehicles'. subscription_entry
        (snd (subscribe_vehicle_to_parking (car_truck_subscribed own_sets)
                ''P1'' ''car'' ''v2'')) ''P1'' ''car''
        = Some (2, vehicles'))
   \<and> subscription_entry
     (snd (remove_subscribed_vehicle (car_truck_subscribed own_sets) ''P1'' ''car'' ''v1''))
     ''P1'' ''truck''
     = Some (2, {||})
   \<and> (\<exists>vehicles'. subscription_entry
        (snd (remove_subscribed_vehicle (car_truck_subscribed own_sets)
                ''P1'' ''car'' ''v1'')) ''P1'' ''car''
        = Some (2, vehicles'))"
proof -
  let ?m = "car_truck_subscribed own_sets"
  let ?p = "(car_truck_park [(''car'', 5), (''truck'', 5)])
              \<lparr>subscriptions_by_class := fst own_sets, subscription_sets := snd own_sets\<rparr>"
  have reg: "map_of (parking_db ?m) ''P1'' = Some ?p"
    by (simp add: car_truck_subscribed_def new_monitor_def)
  have car: "map_of (subscriptions_by_class ?p) ''car'' = Some (2, 0)"
    and truck: "map_of (subscriptions_by_class ?p) ''truck'' = Some (2, 1)"
    by (simp_all add: own_sets_def)
  have before: "subscription_entry ?m ''P1'' ''truck'' = Some (2, {||})"
    by (simp add: subscription_entry_def reg) (simp add: subscription_items_def own_sets_def)
  have ne: "(1::nat) \<noteq> 0" by simp
  note f1 = subscription_frame [OF reg car disjI1 [OF refl], of "''v2''"]
  note f2 = subscription_frame [OF reg car disjI2 [OF refl], of "''v1''"]
  from f1 have a: "\<forall>c num a. map_of (subscriptions_by_class ?p) c = Some (num, a) \<longrightarrow>
      (\<exists>vehicles'. subscription_entry
          (snd (subscribe_vehicle_to_parking ?m ''P1'' ''car'' ''v2'')) ''P1'' c
          = Some (num, vehicles'))
      \<and> (a \<noteq> 0 \<longrightarrow> subscription_entry
          (snd (subscribe_vehicle_to_parking ?m ''P1'' ''car'' ''v2'')) ''P1'' c
          = subscription_entry ?m ''P1'' c)"
    by blast
  from f2 have b: "\<forall>c num a. map_of (subscriptions_by_class ?p) c = Some (num, a) \<longrightarrow>
      (\<exists>vehicles'. subscription_entry
          (snd (remove_subscribed_vehicle ?m ''P1'' ''car'' ''v1'')) ''P1'' c
          = Some (num, vehicles'))
      \<and> (a \<noteq> 0 \<longrightarrow> subscription_entry
          (snd (remove_subscribed_vehicle ?m ''P1'' ''car'' ''v1'')) ''P1'' c
          = subscription_entry ?m ''P1'' c)"
    by blast
  from a car truck ne before b show ?thesis by metis
qed

subsection \<open>The setters of capacities and subscriptions\<close>

lemma subscriptions_within_capacity_fails:
  "\<exists>(k, v)\<in>set subs. (case map_of cap k of None \<Rightarrow> True | Some c \<Rightarrow> c < fst v)
     \<Longrightarrow> \<exists>e. subscriptions_within_capacity cap subs = Inl e"
  by (induction subs) (auto split: option.splits)

text \<open>
  C2, as stated, fails: the facility holds the capacities \<open>car: 10\<close>; setting \<open>car: 5\<close>
  (which does not sum up to the total capacity 10) raises, and the next read returns the
  new capacities, not the previous ones.
\<close>

theorem setter_rollback_counterexample:
  "fst (set_parking_capacity_vclass (car_monitor [(''car'', 10)] no_subscriptions) ''P1'' [(''car'', 5)])
     = Inl InvariantViolation
   \<and> get_parking_capacity_vclass (car_monitor [(''car'', 10)] no_subscriptions) ''P1''
     = Inr [(''car'', 10)]
   \<and> get_parking_capacity_vclass
        (snd (set_parking_capacity_vclass (car_monitor [(''car'', 10)] no_subscriptions) ''P1''
                [(''car'', 5)])) ''P1''
     = Inr [(''car'', 5)]"
  by (simp add: set_parking_capacity_vclass_def get_parking_capacity_vclass_def
      validate_parking_capacity_def car_monitor_def car_park_def no_subscriptions_def new_monitor_def
      init_parking_def Let_def)

text \<open>
  C2, as the code has it: for a registered facility, when \<open>set_parking_capacity_vclass\<close>
  is called with capacities that fail the validation (their classes are not the configured
  classes, or they do not sum up to \<open>total_capacity\<close>), the call raises and the given
  capacities have replaced the previous ones: the next read returns them. The same holds
  for \<open>set_parking_subscriptions\<close> with subscriptions that fail the validation (no
  capacities by class, classes that are not the configured ones, or a class that reserves
  more than its capacity).
\<close>

theorem setters_leave_invalid_mapping:
  assumes reg: "map_of (parking_db self) parking = Some p"
  shows "(set (map fst capacities) \<noteq> vclasses self
            \<or> sum_list (map snd capacities) \<noteq> total_capacity p \<longrightarrow>
            (\<exists>e. fst (set_parking_capacity_vclass self parking capacities) = Inl e)
          \<and> get_parking_capacity_vclass
               (snd (set_parking_capacity_vclass self parking capacities)) parking
             = Inr capacities)
       \<and> (capacity_by_class p = []
            \<or> set (map fst (fst subscriptions)) \<noteq> vclasses self
            \<or> (\<exists>(k, v)\<in>set (fst subscriptions).
                  case map_of (capacity_by_class p) k of None \<Rightarrow> True | Some c \<Rightarrow> c < fst v) \<longrightarrow>
            (\<exists>e. fst (set_parking_subscriptions self parking subscriptions) = Inl e)
          \<and> get_parking_subscriptions
               (snd (set_parking_subscriptions self parking subscriptions)) parking
             = Inr subscriptions)"
proof (intro conjI impI)
  assume "set (map fst capacities) \<noteq> vclasses self
            \<or> sum_list (map snd capacities) \<noteq> total_capacity p"
  then show "\<exists>e. fst (set_parking_capacity_vclass self parking capacities) = Inl e"
    using reg
    by (auto simp: set_parking_capacity_vclass_def validate_parking_capacity_def
        update_conv' Let_def)
next
  show "get_parking_capacity_vclass
               (snd (set_parking_capacity_vclass self parking capacities)) parking
             = Inr capacities"
    using reg
    by (simp add: set_parking_capacity_vclass_def get_parking_capacity_vclass_def
        update_conv' Let_def)
next
  assume a: "capacity_by_class p = []
            \<or> set (map fst (fst subscriptions)) \<noteq> vclasses self
            \<or> (\<exists>(k, v)\<in>set (fst subscriptions).
                  case map_of (capacity_by_class p) k of None \<Rightarrow> True | Some c \<Rightarrow> c < fst v)"
  show "\<exists>e. fst (set_parking_subscriptions self parking subscriptions) = Inl e"
  proof (cases "capacity_by_class p = []
                  \<or> set (map fst (fst subscriptions)) \<noteq> vclasses self")
    case True
    then show ?thesis
      using reg
      by (auto simp: set_parking_subscriptions_def validate_parking_subscriptions_def
          update_conv' Let_def)
  next
    case False
    with a have "\<exists>(k, v)\<in>set (fst subscriptions).
                  case map_of (capacity_by_class p) k of None \<Rightarrow> True | Some c \<Rightarrow> c < fst v"
      by blast
    from subscriptions_within_capacity_fails [OF this]
    obtain e where
      "subscriptions_within_capacity (capacity_by_class p) (fst subscriptions) = Inl e"
      by blast
    with False reg show ?thesis
      by (simp add: set_parking_subscriptions_def validate_parking_subscriptions_def
          update_conv' Let_def)
  qed
next
  show "get_parking_subscriptions
               (snd (set_parking_subscriptions self parking subscriptions)) parking
             = Inr subscriptions"
    using reg
    by (simp add: set_parking_subscriptions_def get_parking_subscriptions_def
        update_conv' Let_def)
qed

text \<open>C2 on the facility with the capacities \<open>car: 10\<close>: capacities that sum up to 5,
  and 11 reserved places for cars.\<close>

theorem setters_leave_invalid_mapping_witness:
  "(\<exists>e. fst (set_parking_capacity_vclass (car_monitor [(''car'', 10)] no_subscriptions) ''P1''
             [(''car'', 5)]) = Inl e)
   \<and> get_parking_capacity_vclass
        (snd (set_parking_capacity_vclass (car_monitor [(''car'', 10)] no_subscriptions) ''P1''
                [(''car'', 5)])) ''P1''
      = Inr [(''car'', 5)]
   \<and> (\<exists>e. fst (set_parking_subscriptions (car_monitor [(''car'', 10)] no_subscriptions) ''P1''
             (single_class ''car'' 11 {||})) = Inl e)
   \<and> get_parking_subscriptions
        (snd (set_parking_subscriptions (car_monitor [(''car'', 10)] no_subscriptions) ''P1''
                (single_class ''car'' 11 {||}))) ''P1''
      = Inr (single_class ''car'' 11 {||})"
proof -
  have reg: "map_of (parking_db (car_monitor [(''car'', 10)] no_subscriptions)) ''P1''
               = Some (car_park [(''car'', 10)] no_subscriptions)"
    by (simp add: car_monitor_def new_monitor_def)
  have p: "total_capacity (car_park [(''car'', 10)] no_subscriptions) = 10"
    "capacity_by_class (car_park [(''car'', 10)] no_subscriptions) = [(''car'', 10)]"
    by (simp_all add: car_park_def init_parking_def)
  from setters_leave_invalid_mapping
    [OF reg, of "[(''car'', 5)]" "single_class ''car'' 11 {||}"]
  show ?thesis by (simp add: p single_class_def)
qed

subsection \<open>Reading the projections\<close>

text \<open>
  C3: \<open>get_parking_projections\<close> on a registered facility, as \<open>__init__\<close> creates it:
  the call raises \<open>KeyError\<close>, it does not return the projections of the facility.
\<close>

theorem get_parking_projections_key_error:
  "get_parking_projections (car_monitor [] no_subscriptions) ''P1'' = Inl KeyError"
  by (simp add: get_parking_projections_def car_monitor_def car_park_def no_subscriptions_def new_monitor_def
      init_parking_def)

subsection \<open>The rerouter iterator\<close>

text \<open>
  C9: the rerouter \<open>R1\<close> lists its two intervals in the order of the document, the one
  that ends at 1000 before the one that ends at 2000. At step 500 the first interval of
  the list whose end is not before the step is the first one, with the offer \<open>A\<close>; the
  iterator yields the offer \<open>B\<close> of the second interval. At step 1500 it is the second
  one, with the offer \<open>B\<close>; the iterator yields the offer \<open>A\<close> of the interval that
  ended at 1000.
\<close>

theorem rerouter_iterator_document_order:
  "get_rerouter_iterator two_intervals 500 =
     [\<lparr>info_id = ''R1'', info_edges = [''e1''], info = Some [(''B'', True)]\<rparr>]
   \<and> spec_first_active 500 [(1000, [(''A'', True)]), (2000, [(''B'', True)])]
       = Some [(''A'', True)]
   \<and> get_rerouter_iterator two_intervals 1500 =
     [\<lparr>info_id = ''R1'', info_edges = [''e1''], info = Some [(''A'', True)]\<rparr>]
   \<and> spec_first_active 1500 [(1000, [(''A'', True)]), (2000, [(''B'', True)])]
       = Some [(''B'', True)]"
  by (simp add: get_rerouter_iterator_def two_intervals_def new_monitor_def
      spec_first_active_def)

text \<open>
  The loop goes on while the step is not after the end of the interval and stops at the
  first interval that has ended: on the same intervals in the reverse order it yields the
  interval that the step falls in.
\<close>

lemma rerouter_current_reverse_order:
  "rerouter_current 500 None [(2000, [(''B'', True)]), (1000, [(''A'', True)])]
     = Some [(''A'', True)]
   \<and> rerouter_current 1500 None [(2000, [(''B'', True)]), (1000, [(''A'', True)])]
     = Some [(''B'', True)]"
  by simp

subsection \<open>The closest facilities\<close>

text \<open>
  C7: \<open>get_closest_parkings\<close> after a build of the travel times. With a routing oracle
  that finds no route, \<open>compute_parking_travel_time\<close> has queried every pair of the three
  facilities (the pairs of edges are blacklisted) and has stored no list; the query that
  follows the build raises the exception of a structure that is not initialised.
\<close>

theorem get_closest_parkings_after_build:
  "blacklisted_edges_pairs (compute_parking_travel_time three_parkings no_route)
     = [(''e1'', [''e2'', ''e3'']), (''e2'', [''e1'', ''e3'']), (''e3'', [''e1'', ''e2''])]
   \<and> static_parking_travel_time (compute_parking_travel_time three_parkings no_route) = []
   \<and> get_closest_parkings (compute_parking_travel_time three_parkings no_route) ''P1'' None
     = Inl NotInitialized"
  by (simp add: compute_parking_travel_time_def three_parkings_def new_monitor_def
      init_parking_def no_route_def defaultdict_get_def get_closest_parkings_def)

text \<open>
  With routes to \<open>P2\<close> and \<open>P3\<close>, the lists are sorted by cost; the query for one item
  returns the closest facility, and the query for 0 items returns both.
\<close>

lemma get_closest_parkings_sorted_lists:
  "static_parking_travel_time (compute_parking_travel_time three_parkings routes_to_e2_e3)
     = [(''P1'', [(3, ''P3''), (5, ''P2'')]), (''P2'', [(3, ''P3'')]), (''P3'', [(5, ''P2'')])]"
  by (simp add: compute_parking_travel_time_def three_parkings_def new_monitor_def
      init_parking_def routes_to_e2_e3_def defaultdict_get_def)

lemma get_closest_parkings_one_and_zero:
  "get_closest_parkings (compute_parking_travel_time three_parkings routes_to_e2_e3)
       ''P1'' (Some 1) = Inr [(3, ''P3'')]
   \<and> get_closest_parkings (compute_parking_travel_time three_parkings routes_to_e2_e3)
       ''P1'' (Some 0) = Inr [(3, ''P3''), (5, ''P2'')]"
  by (simp add: get_closest_parkings_def get_closest_parkings_sorted_lists)

text \<open>
  What holds of the query in general: without \<open>num\<close> the loop returns the whole list
  of the facility, with a positive \<open>num\<close> its first \<open>num\<close> items; every list that
  \<open>compute_parking_travel_time\<close> stores is sorted.
\<close>

lemma closest_loop_all: "closest_loop None items acc = acc @ items"
  by (induction items arbitrary: acc) auto

lemma closest_loop_take:
  assumes "0 < n" and "int (length acc) \<le> n"
  shows "closest_loop (Some n) items acc = acc @ take (nat n - length acc) items"
  using assms(2)
proof (induction items arbitrary: acc)
  case Nil
  then show ?case by simp
next
  case (Cons item items)
  show ?case
  proof (cases "int (length acc) = n")
    case True
    with assms(1) show ?thesis by simp
  next
    case False
    with Cons.prems have l: "int (length (acc @ [item])) \<le> n" by simp
    from Cons.prems False have "nat n - length acc = Suc (nat n - length (acc @ [item]))"
      by simp
    with Cons.IH [OF l] False assms(1) show ?thesis by simp
  qed
qed

lemma get_closest_parkings_prefix:
  assumes "static_parking_travel_time self \<noteq> []"
    and "map_of (static_parking_travel_time self) parking = Some items"
    and "0 < n"
  shows "get_closest_parkings self parking (Some n) = Inr (take (nat n) items)"
    and "get_closest_parkings self parking None = Inr items"
  using assms closest_loop_take [of n "[]" items] closest_loop_all [of items "[]"]
  by (simp_all add: get_closest_parkings_def)

lemma compute_parking_travel_time_sorted:
  assumes "(pid, distances)
             \<in> set (static_parking_travel_time (compute_parking_travel_time self find_route))"
  shows "sorted distances"
  using assms
  by (auto simp: compute_parking_travel_time_def Let_def split: prod.splits)

subsection \<open>The simulation step\<close>

lemma kept_refl: "kept f db db"
  by (simp add: kept_def)

lemma kept_trans: "kept f db1 db2 \<Longrightarrow> kept f db2 db3 \<Longrightarrow> kept f db1 db3"
  by (simp add: kept_def)

lemma for_each_invariant:
  assumes "for_each body xs s = Inr s'" and "P s"
    and "\<And>x s s1. P s \<Longrightarrow> body x s = Inr s1 \<Longrightarrow> P s1"
  shows "P s'"
  using assms(1,2)
proof (induction xs arbitrary: s)
  case Nil
  then show ?case by simp
next
  case (Cons x xs)
  from Cons.prems(1) obtain s1 where b: "body x s = Inr s1" and r: "for_each body xs s1 = Inr s'"
    by (auto split: sum.splits)
  from assms(3) [OF Cons.prems(2) b] have "P s1" .
  from Cons.IH [OF r this] show ?case .
qed

lemma update_parking_kept:
  assumes "update_parking area change db = Inr db'"
    and "\<And>p p1. change p = Inr p1 \<Longrightarrow> f p1 = f p"
  shows "kept f db db'"
proof -
  from assms(1) obtain p p1 where p: "map_of db area = Some p" and c: "change p = Inr p1"
    and d: "db' = AList.update area p1 db"
    by (auto simp: update_parking_def split: option.splits sum.splits)
  from assms(2) [OF c] p show ?thesis
    by (simp add: kept_def d update_conv')
qed

lemma add_projection_kept:
  "add_projection v_class vehicle area db = Inr db' \<Longrightarrow> kept core db db'"
  unfolding add_projection_def
  by (erule update_parking_kept) (auto simp: core_def split: sum.splits)

lemma remove_projection_kept:
  "remove_projection v_class vehicle area db = Inr db' \<Longrightarrow> kept core db db'"
  unfolding remove_projection_def
  by (erule update_parking_kept) (auto simp: core_def split: sum.splits)

lemma add_projections_kept:
  assumes "for_each (add_projection v_class vehicle) areas db = Inr db'"
  shows "kept core db db'"
  by (rule for_each_invariant [OF assms, where P = "kept core db"])
    (auto intro: kept_refl kept_trans add_projection_kept)

lemma remove_projections_kept:
  assumes "for_each (remove_projection v_class vehicle) areas db = Inr db'"
  shows "kept core db db'"
  by (rule for_each_invariant [OF assms, where P = "kept core db"])
    (auto intro: kept_refl kept_trans remove_projection_kept)

lemma monitor_departed_vehicle_kept:
  assumes "monitor_departed_vehicle traci vehicle self = Inr self'"
  shows "kept core (parking_db self) (parking_db self') \<and> vclasses self' = vclasses self"
  using assms
  by (auto simp: monitor_departed_vehicle_def Let_def kept_refl
      split: if_splits sum.splits dest: add_projections_kept)

lemma monitor_arrived_vehicle_kept:
  assumes "monitor_arrived_vehicle traci vehicle self = Inr self'"
  shows "kept core (parking_db self) (parking_db self') \<and> vclasses self' = vclasses self"
  using assms
  by (auto simp: monitor_arrived_vehicle_def kept_refl split: option.splits)

lemma update_vehicle_kept:
  assumes "update_vehicle traci result self = Inr self'"
  shows "kept core (parking_db self) (parking_db self') \<and> vclasses self' = vclasses self"
  using assms
  by (auto simp: update_vehicle_def Let_def kept_refl
      split: if_splits sum.splits option.splits prod.splits
      dest!: add_projections_kept remove_projections_kept intro: kept_trans)

lemma phase_kept:
  assumes "for_each body xs self = Inr self'"
    and "\<And>x s s1. body x s = Inr s1
           \<Longrightarrow> kept core (parking_db s) (parking_db s1) \<and> vclasses s1 = vclasses s"
  shows "kept core (parking_db self) (parking_db self') \<and> vclasses self' = vclasses self"
  by (rule for_each_invariant [OF assms(1),
        where P = "\<lambda>s. kept core (parking_db self) (parking_db s) \<and> vclasses s = vclasses self"])
    (auto simp: kept_refl dest!: assms(2) intro: kept_trans)

lemma monitor_vehicles_kept:
  assumes "monitor_vehicles traci self = Inr self'"
  shows "kept core (parking_db self) (parking_db self') \<and> vclasses self' = vclasses self"
proof -
  from assms obtain s1 where
    a: "for_each (monitor_departed_vehicle traci) (departed_ids traci) self = Inr s1"
    and b: "for_each (monitor_arrived_vehicle traci) (arrived_ids traci) s1 = Inr self'"
    by (auto simp: monitor_vehicles_def split: sum.splits)
  have 1: "kept core (parking_db self) (parking_db s1) \<and> vclasses s1 = vclasses self"
    by (rule phase_kept [OF a]) (rule monitor_departed_vehicle_kept)
  have 2: "kept core (parking_db s1) (parking_db self') \<and> vclasses self' = vclasses s1"
    by (rule phase_kept [OF b]) (rule monitor_arrived_vehicle_kept)
  from 1 2 show ?thesis by (auto intro: kept_trans)
qed

lemma update_vehicles_db_kept:
  assumes "update_vehicles_db traci self = Inr self'"
  shows "kept core (parking_db self) (parking_db self') \<and> vclasses self' = vclasses self"
  using assms unfolding update_vehicles_db_def
  by (rule phase_kept) (rule update_vehicle_kept)

lemma check_occupancy_kept:
  "kept kept_occupancy (parking_db self) (parking_db (check_occupancy traci self))
   \<and> vclasses (check_occupancy traci self) = vclasses self"
proof -
  have "map_option kept_occupancy (map_of (parking_db (check_occupancy traci self)) pid)
          = map_option kept_occupancy (map_of (parking_db self) pid)" for pid
    by (cases "map_of (parking_db self) pid")
      (simp_all add: check_occupancy_def map_of_map_values kept_occupancy_def)
  then show ?thesis by (simp add: kept_def check_occupancy_def)
qed

lemma ending_vehicle_step:
  assumes "ending_vehicle vehicle (s, tv) = Inr (s', tv')"
  shows "kept totals (parking_db s) (parking_db s') \<and> vclasses s' = vclasses s
       \<and> set tv \<subseteq> set tv'
       \<and> (\<forall>pid. pid \<notin> set tv' \<longrightarrow>
             map_option occupancy_by_class (map_of (parking_db s') pid)
             = map_option occupancy_by_class (map_of (parking_db s) pid))"
  using assms
  by (auto simp: ending_vehicle_def kept_def totals_def update_conv'
      split: sum.splits option.splits)

lemma starting_vehicle_step:
  assumes "starting_vehicle vehicle (s, tv) = Inr (s', tv')"
  shows "kept totals (parking_db s) (parking_db s') \<and> vclasses s' = vclasses s
       \<and> set tv \<subseteq> set tv'
       \<and> (\<forall>pid. pid \<notin> set tv' \<longrightarrow>
             map_option occupancy_by_class (map_of (parking_db s') pid)
             = map_option occupancy_by_class (map_of (parking_db s) pid))"
  using assms
  by (auto simp: starting_vehicle_def kept_def totals_def update_conv'
      split: sum.splits option.splits)

lemma loop_inv_step:
  assumes "loop_inv s0 (s, tv)"
    and "kept totals (parking_db s) (parking_db s') \<and> vclasses s' = vclasses s
       \<and> set tv \<subseteq> set tv'
       \<and> (\<forall>pid. pid \<notin> set tv' \<longrightarrow>
             map_option occupancy_by_class (map_of (parking_db s') pid)
             = map_option occupancy_by_class (map_of (parking_db s) pid))"
  shows "loop_inv s0 (s', tv')"
proof -
  from assms have "kept totals (parking_db s0) (parking_db s')"
    by (auto simp: loop_inv_def intro: kept_trans)
  moreover from assms have "vclasses s' = vclasses s0" by (simp add: loop_inv_def)
  moreover have "map_option occupancy_by_class (map_of (parking_db s') pid)
              = map_option occupancy_by_class (map_of (parking_db s0) pid)"
    if "pid \<notin> set tv'" for pid
  proof -
    from that assms(2) have "pid \<notin> set tv" by blast
    with assms(1) have "map_option occupancy_by_class (map_of (parking_db s) pid)
              = map_option occupancy_by_class (map_of (parking_db s0) pid)"
      by (simp add: loop_inv_def)
    with assms(2) that show ?thesis by simp
  qed
  ultimately show ?thesis by (simp add: loop_inv_def)
qed

lemma ending_loop_inv:
  assumes "for_each ending_vehicle vs st = Inr st'" and "loop_inv s0 st"
  shows "loop_inv s0 st'"
proof (rule for_each_invariant [OF assms(1), where P = "loop_inv s0"])
  show "loop_inv s0 st" by (rule assms(2))
next
  fix x a b
  assume i: "loop_inv s0 a" and b: "ending_vehicle x a = Inr b"
  obtain s tv where a: "a = (s, tv)" by (cases a)
  obtain s' tv' where b': "b = (s', tv')" by (cases b)
  from ending_vehicle_step [OF b [unfolded a b']] i [unfolded a]
  show "loop_inv s0 b" unfolding b' by (rule loop_inv_step [rotated])
qed

lemma starting_loop_inv:
  assumes "for_each starting_vehicle vs st = Inr st'" and "loop_inv s0 st"
  shows "loop_inv s0 st'"
proof (rule for_each_invariant [OF assms(1), where P = "loop_inv s0"])
  show "loop_inv s0 st" by (rule assms(2))
next
  fix x a b
  assume i: "loop_inv s0 a" and b: "starting_vehicle x a = Inr b"
  obtain s tv where a: "a = (s, tv)" by (cases a)
  obtain s' tv' where b': "b = (s', tv')" by (cases b)
  from starting_vehicle_step [OF b [unfolded a b']] i [unfolded a]
  show "loop_inv s0 b" unfolding b' by (rule loop_inv_step [rotated])
qed

lemma validation_loop:
  assumes "for_each (\<lambda>pid s. case validate_parking_occupancy s pid of
                                 Inl e \<Rightarrow> Inl e | Inr _ \<Rightarrow> Inr s) tv s = Inr s'"
  shows "s' = s \<and> (\<forall>pid\<in>set tv. validate_parking_occupancy s pid = Inr ())"
  using assms
  by (induction tv) (auto split: sum.splits)

lemma occupancy_total_sum:
  "occupancy_total capacity occ t = Inr t'
     \<Longrightarrow> t' = t + (\<Sum>(c, vs)\<leftarrow>occ. int (fcard vs))"
  by (induction capacity occ t rule: occupancy_total.induct)
    (auto split: if_splits option.splits)

lemma validate_parking_occupancy_ok:
  assumes "validate_parking_occupancy s pid = Inr ()"
  shows "\<exists>p. map_of (parking_db s) pid = Some p
           \<and> set (map fst (occupancy_by_class p)) = vclasses s
           \<and> (\<Sum>(c, vs)\<leftarrow>occupancy_by_class p. int (fcard vs)) = total_occupancy p"
  using assms
  by (auto simp: validate_parking_occupancy_def
      split: option.splits if_splits sum.splits dest!: occupancy_total_sum)

lemma kept_lookup:
  assumes "kept f db db'" and "map_of db pid = Some p"
  obtains p' where "map_of db' pid = Some p'" and "f p' = f p"
proof -
  from assms have "map_option f (map_of db' pid) = Some (f p)" by (simp add: kept_def)
  then obtain p' where "map_of db' pid = Some p'" "f p' = f p" by auto
  then show thesis by (rule that)
qed

lemma update_parking_db_result:
  assumes u: "update_parking_db traci s = Inr s'" and reg: "map_of (parking_db s) pid = Some p"
  shows "\<exists>p'. map_of (parking_db s') pid = Some p'
           \<and> capacity_by_class p' = capacity_by_class p \<and> total_capacity p' = total_capacity p
           \<and> (occupancy_by_class p' \<noteq> occupancy_by_class p \<longrightarrow>
                set (map fst (occupancy_by_class p')) = vclasses s
                \<and> (\<Sum>(c, vs)\<leftarrow>occupancy_by_class p'. int (fcard vs)) = total_occupancy p')"
proof -
  define s1 where "s1 = check_occupancy traci s"
  from u obtain s2 tv2 s4 tv4 where
    e: "for_each ending_vehicle
          (case traci_ending_stop_subscriptions s1 of None \<Rightarrow> [] | Some l \<Rightarrow> l) (s1, [])
        = Inr (s2, tv2)"
    and st: "for_each starting_vehicle (starting_vehicles traci)
          (s2\<lparr>traci_starting_stop_subscriptions := Some (starting_vehicles traci),
              traci_ending_stop_subscriptions := Some (ending_vehicles traci)\<rparr>, tv2)
        = Inr (s4, tv4)"
    and v: "for_each (\<lambda>pid s. case validate_parking_occupancy s pid of
                                 Inl e \<Rightarrow> Inl e | Inr _ \<Rightarrow> Inr s) tv4 s4 = Inr s'"
    by (auto simp: update_parking_db_def Let_def s1_def split: sum.splits prod.splits)
  have i1: "loop_inv s1 (s1, [])" by (simp add: loop_inv_def kept_refl)
  from ending_loop_inv [OF e i1] have i2: "loop_inv s1 (s2, tv2)" .
  then have i3: "loop_inv s1
      (s2\<lparr>traci_starting_stop_subscriptions := Some (starting_vehicles traci),
          traci_ending_stop_subscriptions := Some (ending_vehicles traci)\<rparr>, tv2)"
    by (simp add: loop_inv_def)
  from starting_loop_inv [OF st i3] have i4: "loop_inv s1 (s4, tv4)" .
  from validation_loop [OF v] have s': "s' = s4"
    and ok: "\<forall>pid\<in>set tv4. validate_parking_occupancy s4 pid = Inr ()" by simp_all
  from check_occupancy_kept [of s traci]
  have k1: "kept kept_occupancy (parking_db s) (parking_db s1)" and v1: "vclasses s1 = vclasses s"
    by (simp_all add: s1_def)
  from i4 have k4: "kept totals (parking_db s1) (parking_db s4)" and v4: "vclasses s4 = vclasses s1"
    and o4: "\<forall>pid. pid \<notin> set tv4 \<longrightarrow>
              map_option occupancy_by_class (map_of (parking_db s4) pid)
              = map_option occupancy_by_class (map_of (parking_db s1) pid)"
    by (simp_all add: loop_inv_def)
  from kept_lookup [OF k1 reg] obtain p1 where p1: "map_of (parking_db s1) pid = Some p1"
    and f1: "kept_occupancy p1 = kept_occupancy p" .
  from kept_lookup [OF k4 p1] obtain p4 where p4: "map_of (parking_db s4) pid = Some p4"
    and f4: "totals p4 = totals p1" .
  have c: "capacity_by_class p4 = capacity_by_class p \<and> total_capacity p4 = total_capacity p"
    using f1 f4 by (simp add: kept_occupancy_def totals_def)
  have "set (map fst (occupancy_by_class p4)) = vclasses s
        \<and> (\<Sum>(c, vs)\<leftarrow>occupancy_by_class p4. int (fcard vs)) = total_occupancy p4"
    if ne: "occupancy_by_class p4 \<noteq> occupancy_by_class p"
  proof -
    have "pid \<in> set tv4"
    proof (rule ccontr)
      assume "pid \<notin> set tv4"
      with o4 have "map_option occupancy_by_class (map_of (parking_db s4) pid)
              = map_option occupancy_by_class (map_of (parking_db s1) pid)" by blast
      with p4 p1 have "occupancy_by_class p4 = occupancy_by_class p1" by simp
      with f1 ne show False by (simp add: kept_occupancy_def)
    qed
    with ok have "validate_parking_occupancy s4 pid = Inr ()" by blast
    from validate_parking_occupancy_ok [OF this] p4 v4 v1 show ?thesis by simp
  qed
  with p4 c s' show ?thesis by simp
qed

text \<open>
  C1, as stated, fails. The facility \<open>P1\<close> has the total capacity 10 and the capacities
  \<open>car: 5\<close> from its specific configuration (which \<open>__init__\<close> does not validate), and
  no vehicle inside. In a step TraCI reports the occupancy 1 and no vehicle that starts or
  ends a stop: the step completes, nothing is validated, the total occupancy is 1 and the
  sets of the classes hold no vehicle, and the capacities still sum up to 5, not to 10.
\<close>

theorem step_invariant_counterexample:
  "(case step (quiet_step 1 []) (car_monitor [(''car'', 5)] no_subscriptions) of
      Inl e \<Rightarrow> False
    | Inr s \<Rightarrow>
        (case map_of (parking_db s) ''P1'' of
           None \<Rightarrow> False
         | Some p \<Rightarrow>
             total_occupancy p = 1
             \<and> (\<Sum>(c, vs)\<leftarrow>occupancy_by_class p. int (fcard vs)) = 0
             \<and> capacity_by_class p = [(''car'', 5)]
             \<and> sum_list (map snd (capacity_by_class p)) = 5
             \<and> total_capacity p = 10))"
  by (simp add: step_def monitor_vehicles_def update_vehicles_db_def update_parking_db_def
      check_occupancy_def quiet_step_def car_monitor_def car_park_def no_subscriptions_def new_monitor_def
      init_parking_def)

text \<open>
  C1, as the code has it: after every completed step, every registered facility is still
  registered, with the capacities by class and the total capacity it had before the step
  (the step neither changes nor checks them); and for every facility whose occupancy by
  class the step has changed, the classes of \<open>occupancy_by_class\<close> are the configured
  classes and the sizes of its sets sum up to \<open>total_occupancy\<close>.
\<close>

theorem step_validates_changed_facilities:
  assumes st: "step traci self = Inr self'"
    and reg: "map_of (parking_db self) parking = Some p"
  shows "\<exists>p'. map_of (parking_db self') parking = Some p'
           \<and> capacity_by_class p' = capacity_by_class p \<and> total_capacity p' = total_capacity p
           \<and> (occupancy_by_class p' \<noteq> occupancy_by_class p \<longrightarrow>
                set (map fst (occupancy_by_class p')) = vclasses self
                \<and> (\<Sum>(c, vs)\<leftarrow>occupancy_by_class p'. int (fcard vs)) = total_occupancy p')"
proof -
  from st obtain s1 s2 where
    a: "monitor_vehicles traci self = Inr s1"
    and b: "update_vehicles_db traci s1 = Inr s2"
    and c: "update_parking_db traci s2 = Inr self'"
    by (auto simp: step_def split: sum.splits)
  from monitor_vehicles_kept [OF a] update_vehicles_db_kept [OF b]
  have k: "kept core (parking_db self) (parking_db s2)" and v: "vclasses s2 = vclasses self"
    by (auto intro: kept_trans)
  from kept_lookup [OF k reg] obtain p2 where p2: "map_of (parking_db s2) parking = Some p2"
    and f: "core p2 = core p" .
  from update_parking_db_result [OF c p2] f v show ?thesis
    by (simp add: core_def)
qed

text \<open>
  C1 on the monitor that tracks \<open>v1\<close>: TraCI reports the occupancy 1 of \<open>P1\<close> and
  \<open>v1\<close> starting its stop; the step completes, \<open>v1\<close> is in the set of the cars, and the
  sizes sum up to the total occupancy 1.
\<close>

theorem step_validates_changed_facilities_witness:
  "step (quiet_step 1 [''v1'']) tracking_v1 =
     Inr (tracking_v1\<lparr>parking_db := [(''P1'', (car_park [] no_subscriptions)
            \<lparr>total_occupancy := 1, occupancy_series := [(0, 0), (1, 1)],
             occupancy_by_class := [(''car'', {|''v1''|})]\<rparr>)],
          traci_starting_stop_subscriptions := Some [''v1''],
          traci_ending_stop_subscriptions := Some []\<rparr>)
   \<and> (\<exists>p'. map_of (parking_db (tracking_v1\<lparr>parking_db := [(''P1'', (car_park [] no_subscriptions)
            \<lparr>total_occupancy := 1, occupancy_series := [(0, 0), (1, 1)],
             occupancy_by_class := [(''car'', {|''v1''|})]\<rparr>)],
          traci_starting_stop_subscriptions := Some [''v1''],
          traci_ending_stop_subscriptions := Some []\<rparr>)) ''P1'' = Some p'
        \<and> occupancy_by_class p' \<noteq> occupancy_by_class (car_park [] no_subscriptions)
        \<and> set (map fst (occupancy_by_class p')) = {''car''}
        \<and> (\<Sum>(c, vs)\<leftarrow>occupancy_by_class p'. int (fcard vs)) = total_occupancy p')"
proof -
  let ?s = "tracking_v1\<lparr>parking_db := [(''P1'', (car_park [] no_subscriptions)
            \<lparr>total_occupancy := 1, occupancy_series := [(0, 0), (1, 1)],
             occupancy_by_class := [(''car'', {|''v1''|})]\<rparr>)],
          traci_starting_stop_subscriptions := Some [''v1''],
          traci_ending_stop_subscriptions := Some []\<rparr>"
  have st: "step (quiet_step 1 [''v1'']) tracking_v1 = Inr ?s"
    by (simp add: step_def monitor_vehicles_def update_vehicles_db_def update_parking_db_def
        check_occupancy_def quiet_step_def car_monitor_def car_park_def no_subscriptions_def new_monitor_def
        init_parking_def tracking_v1_def starting_vehicle_def
        get_parking_area_from_vehicle_def stopping_place_def add_to_class_def
        validate_parking_occupancy_def fcard_finsert_if)
  have reg: "map_of (parking_db tracking_v1) ''P1'' = Some (car_park [] no_subscriptions)"
    by (simp add: tracking_v1_def car_monitor_def new_monitor_def)
  have v: "vclasses tracking_v1 = {''car''}"
    by (simp add: tracking_v1_def car_monitor_def new_monitor_def)
  from step_validates_changed_facilities [OF st reg]
  obtain p' where a: "map_of (parking_db ?s) ''P1'' = Some p'"
    and i: "occupancy_by_class p' \<noteq> occupancy_by_class (car_park [] no_subscriptions) \<longrightarrow>
              set (map fst (occupancy_by_class p')) = vclasses tracking_v1
              \<and> (\<Sum>(c, vs)\<leftarrow>occupancy_by_class p'. int (fcard vs)) = total_occupancy p'"
    by blast
  from a have "occupancy_by_class p' = [(''car'', {|''v1''|})]" by auto
  then have ne: "occupancy_by_class p' \<noteq> occupancy_by_class (car_park [] no_subscriptions)"
    by (simp add: car_park_def init_parking_def)
  from a i ne v st show ?thesis by blast
qed

end
